theory Spec2Isabelle
  imports
    Main
    "HOL-Library.Sublist"
    "HOL-Library.AList"
    "HOL-Library.Char_ord"
    "HOL-Library.List_Lexorder"
begin

section \<open>Strings and JSON values\<close>

text \<open>
  JavaScript strings are modelled as \<^typ>\<open>string\<close>. Every string the modelled code
  inspects for content (flags, hint words, braces, white space) is ASCII.
\<close>

definition is_ws :: "char \<Rightarrow> bool" where
  "is_ws c = (c \<in> set [CHR 0x09, CHR 0x0A, CHR 0x0B, CHR 0x0C, CHR 0x0D, CHR 0x20])"

text \<open>\<^verbatim>\<open>String.prototype.trim\<close>: white space is removed at both ends.\<close>

definition trim :: "string \<Rightarrow> string" where
  "trim s = rev (dropWhile is_ws (rev (dropWhile is_ws s)))"

definition startsWith :: "string \<Rightarrow> string \<Rightarrow> bool" where
  "startsWith s p = prefix p s"

definition endsWith :: "string \<Rightarrow> string \<Rightarrow> bool" where
  "endsWith s p = suffix p s"

text \<open>\<^verbatim>\<open>String.prototype.includes\<close>: \<open>p\<close> occurs in \<open>s\<close> as a contiguous run.\<close>

fun includes_str :: "string \<Rightarrow> string \<Rightarrow> bool" where
  "includes_str [] p = (p = [])"
| "includes_str (c # cs) p = (prefix p (c # cs) \<or> includes_str cs p)"

definition lower_char :: "char \<Rightarrow> char" where
  "lower_char c =
     (case map_of (zip ''ABCDEFGHIJKLMNOPQRSTUVWXYZ'' ''abcdefghijklmnopqrstuvwxyz'') c of
        Some d \<Rightarrow> d
      | None \<Rightarrow> c)"

definition toLowerCase :: "string \<Rightarrow> string" where
  "toLowerCase s = map lower_char s"

text \<open>\<^verbatim>\<open>Array.prototype.join\<close>.\<close>

fun join :: "string \<Rightarrow> string list \<Rightarrow> string" where
  "join sep [] = []"
| "join sep [x] = x"
| "join sep (x # y # ys) = x @ sep @ join sep (y # ys)"

text \<open>
  A value produced by \<^verbatim>\<open>JSON.parse\<close>. An object holds its own properties, each key once.
  A number keeps its literal text; no modelled code computes with one.
\<close>

datatype json =
    JNull
  | JBool bool
  | JNum string
  | JStr string
  | JArr "json list"
  | JObj "(string \<times> json) list"

text \<open>
  \<^verbatim>\<open>JSON.parse\<close> is the platform's, not the repository's: the adapters take it as a
  parameter. \<open>Inl msg\<close> is a thrown \<^verbatim>\<open>SyntaxError\<close> with message \<open>msg\<close>.
\<close>

type_synonym json_parse = "string \<Rightarrow> string + json"

text \<open>Property read \<^verbatim>\<open>obj[key]\<close>: \<open>None\<close> is \<^verbatim>\<open>undefined\<close>.\<close>

definition jprop :: "(string \<times> json) list \<Rightarrow> string \<Rightarrow> json option" where
  "jprop obj key = map_of obj key"

text \<open>\<^verbatim>\<open>typeof v === "string"\<close>, returning the string.\<close>

fun as_string :: "json option \<Rightarrow> string option" where
  "as_string (Some (JStr s)) = Some s"
| "as_string _ = None"

subsection \<open>parsing.ts\<close>

definition isLikelyJsonObjectLine :: "string \<Rightarrow> bool" where
  "isLikelyJsonObjectLine line =
     (let trimmed = trim line in startsWith trimmed ''{'' \<and> endsWith trimmed ''}'')"

text \<open>
  \<^verbatim>\<open>tryParseJsonObject\<close>: \<open>Inr None\<close> is the \<^verbatim>\<open>null\<close> return, \<open>Inl msg\<close> a
  thrown error (from \<^verbatim>\<open>JSON.parse\<close>, or "line is not a JSON object").
\<close>

definition tryParseJsonObject :: "json_parse \<Rightarrow> string \<Rightarrow> string + (string \<times> json) list option" where
  "tryParseJsonObject jp line =
     (if \<not> isLikelyJsonObjectLine line then Inr None
      else case jp line of
        Inl msg \<Rightarrow> Inl msg
      | Inr (JObj obj) \<Rightarrow> Inr (Some obj)
      | Inr _ \<Rightarrow> Inl ''line is not a JSON object'')"

text \<open>
  The call pattern \<^verbatim>\<open>tryParseJsonObject(line) ?? {}\<close> inside \<^verbatim>\<open>try\<close>: the parsed
  object, the empty object for \<^verbatim>\<open>null\<close>, or the caught error's message.
\<close>

definition parseOrEmpty :: "json_parse \<Rightarrow> string \<Rightarrow> string + (string \<times> json) list" where
  "parseOrEmpty jp line =
     (case tryParseJsonObject jp line of
        Inl msg \<Rightarrow> Inl msg
      | Inr None \<Rightarrow> Inr []
      | Inr (Some obj) \<Rightarrow> Inr obj)"

lemma prop_size: "map_of obj k = Some v \<Longrightarrow> size v < Suc (size_list (size_prod (\<lambda>_. 0) size) obj)"
  by (induction obj) (auto split: if_splits)

text \<open>
  \<^verbatim>\<open>visitText\<close>, returning the strings it pushes onto the sink, in order. For an object
  the five keys are visited in the source's fixed order.
\<close>

function visitText :: "json \<Rightarrow> string list" where
  "visitText (JStr s) = (if length s > 0 then [s] else [])"
| "visitText (JArr items) = concat (map visitText items)"
| "visitText (JObj obj) =
     concat (map (\<lambda>key. case map_of obj key of None \<Rightarrow> [] | Some v \<Rightarrow> visitText v)
       [''delta'', ''text'', ''content'', ''message'', ''response''])"
| "visitText JNull = []"
| "visitText (JBool b) = []"
| "visitText (JNum n) = []"
  by pat_completeness auto
termination
proof (relation "measure size")
  show "wf (measure size)" by simp
next
  fix items :: "json list" and x
  assume "x \<in> set items"
  then have "size x < Suc (size_list size items)"
    by (induction items) auto
  then show "(x, JArr items) \<in> measure size" by simp
next
  fix obj :: "(string \<times> json) list" and key v
  assume "map_of obj key = Some v"
  then show "(v, JObj obj) \<in> measure size"
    using prop_size[of obj key v] by simp
qed

definition extractAssistantText :: "(string \<times> json) list \<Rightarrow> string" where
  "extractAssistantText event =
     (if jprop event ''role'' \<noteq> None \<and> jprop event ''role'' \<noteq> Some (JStr ''assistant'') then ''''
      else trim (join '' '' (visitText (JObj event))))"

definition hasTransientErrorHint :: "string list \<Rightarrow> bool" where
  "hasTransientErrorHint lines =
     (let blob = toLowerCase (join [CHR 0x0A] lines) in
        includes_str blob ''quota'' \<or>
        includes_str blob ''retry'' \<or>
        includes_str blob ''rate limit'' \<or>
        includes_str blob ''429'' \<or>
        includes_str blob ''temporarily unavailable'')"

section \<open>Adapter contract (adapters/types.ts, adapters/command-runner.ts)\<close>

datatype ErrorCode =
    E_OWNER_ONLY
  | E_NOT_IN_MANAGED_THREAD
  | E_PROJECT_NOT_FOUND
  | E_PROJECT_EXISTS
  | E_INVALID_PATH
  | E_INVALID_TOOLSET
  | E_TOOL_NOT_ENABLED
  | E_SESSION_NOT_FOUND
  | E_THREAD_ACCESS_FAILED
  | E_QUEUE_FULL
  | E_JOB_NOT_RETRYABLE
  | E_CLI_TIMEOUT
  | E_CLI_EXIT_NONZERO
  | E_ADAPTER_PARSE
  | E_ADAPTER_MISSING_RESULT
  | E_ADAPTER_SESSION_KEY_MISSING
  | E_DISCORD_RATE_LIMIT

record AdapterRunInput =
  prompt :: string
  cwd :: string
  timeoutSec :: nat
  resumeKey :: "string option"

text \<open>
  \<^verbatim>\<open>AdapterRunResult\<close>: \<open>errorCode\<close> and \<open>errorMessage\<close> are present exactly when
  \<open>ok\<close> is false.
\<close>

record AdapterRunResult =
  ok :: bool
  errorCode :: "ErrorCode option"
  errorMessage :: "string option"
  assistantText :: string
  adapterState :: "(string \<times> string) list"
  diagnosticLogs :: "string list"
  stdoutLines :: "string list"
  stderrLines :: "string list"

record CommandRunRequest =
  command :: string
  args :: "string list"
  req_cwd :: string
  req_timeoutSec :: nat

record CommandRunResult =
  exitCode :: int
  timedOut :: bool
  run_stdoutLines :: "string list"
  run_stderrLines :: "string list"

text \<open>
  One invocation of \<^verbatim>\<open>CommandRunner.run\<close>: the promise rejects (\<open>Rejected msg\<close>) or
  resolves. The runner is the environment: \<open>runner n req\<close> is what the invocation
  made after \<open>n\<close> earlier ones yields for request \<open>req\<close>.
\<close>

datatype RunnerReply = Rejected string | Resolved CommandRunResult

type_synonym CommandRunner = "nat \<Rightarrow> CommandRunRequest \<Rightarrow> RunnerReply"

definition run_failure ::
  "ErrorCode \<Rightarrow> string \<Rightarrow> string \<Rightarrow> (string \<times> string) list \<Rightarrow> string list \<Rightarrow> string list \<Rightarrow> string list
    \<Rightarrow> AdapterRunResult" where
  "run_failure code msg text st diag out err =
     \<lparr>ok = False, errorCode = Some code, errorMessage = Some msg, assistantText = text,
      adapterState = st, diagnosticLogs = diag, stdoutLines = out, stderrLines = err\<rparr>"

definition run_success ::
  "string \<Rightarrow> (string \<times> string) list \<Rightarrow> string list \<Rightarrow> string list \<Rightarrow> string list \<Rightarrow> AdapterRunResult" where
  "run_success text st diag out err =
     \<lparr>ok = True, errorCode = None, errorMessage = None, assistantText = text,
      adapterState = st, diagnosticLogs = diag, stdoutLines = out, stderrLines = err\<rparr>"

text \<open>JavaScript truthiness of an optional string: present and not empty.\<close>

fun truthy :: "string option \<Rightarrow> bool" where
  "truthy None = False"
| "truthy (Some s) = (s \<noteq> '''')"

section \<open>Adapter B: adapters/codex-adapter.ts\<close>

definition codex_buildArgs :: "AdapterRunInput \<Rightarrow> string list" where
  "codex_buildArgs input =
     (case resumeKey input of
        Some key \<Rightarrow>
          (if key \<noteq> '''' then
             [''exec'', ''--dangerously-bypass-approvals-and-sandbox'', ''resume'', key, ''--json'',
              prompt input]
           else [''exec'', ''--dangerously-bypass-approvals-and-sandbox'', ''--json'', prompt input])
      | None \<Rightarrow> [''exec'', ''--dangerously-bypass-approvals-and-sandbox'', ''--json'', prompt input])"

subsection \<open>Numbers in messages\<close>

text \<open>\<^verbatim>\<open>Number.prototype.toString\<close> on an integer: its decimal digits.\<close>

definition digit_char :: "nat \<Rightarrow> char" where
  "digit_char d = ''0123456789'' ! d"

function dec_nat :: "nat \<Rightarrow> string" where
  "dec_nat n = (if n < 10 then [digit_char n] else dec_nat (n div 10) @ [digit_char (n mod 10)])"
  by pat_completeness auto
termination
  by (relation "measure id") auto

definition dec_int :: "int \<Rightarrow> string" where
  "dec_int i = (if i < 0 then ''-'' @ dec_nat (nat (- i)) else dec_nat (nat i))"

definition nl :: string where
  "nl = [CHR 0x0A]"

subsection \<open>The post-run pass of adapter B\<close>

definition parseCodexItem :: "(string \<times> json) list \<Rightarrow> (string \<times> json) list option" where
  "parseCodexItem event =
     (if jprop event ''type'' \<noteq> Some (JStr ''item.started'') \<and>
         jprop event ''type'' \<noteq> Some (JStr ''item.completed'') then None
      else case jprop event ''item'' of
        Some (JObj item) \<Rightarrow> Some item
      | _ \<Rightarrow> None)"

text \<open>\<^verbatim>\<open>appendUnique\<close>; \<^verbatim>\<open>parts.at(-1)\<close> of an empty array is \<^verbatim>\<open>undefined\<close>.\<close>

definition appendUnique :: "string list \<Rightarrow> string \<Rightarrow> string list" where
  "appendUnique parts text =
     (if length text = 0 then parts
      else if parts \<noteq> [] \<and> last parts = text then parts
      else parts @ [text])"

definition extractCodexAssistantText :: "(string \<times> json) list \<Rightarrow> string" where
  "extractCodexAssistantText event =
     (case parseCodexItem event of
        Some item \<Rightarrow>
          (if jprop item ''type'' = Some (JStr ''agent_message'') then
             (case as_string (jprop item ''text'') of Some t \<Rightarrow> trim t | None \<Rightarrow> '''')
           else '''')
      | None \<Rightarrow> '''')"

text \<open>
  The local variables of a post-run loop: \<^verbatim>\<open>diagnostics\<close>, \<^verbatim>\<open>assistantParts\<close> and the
  session key (\<^verbatim>\<open>threadId\<close> in adapter B, \<^verbatim>\<open>sessionId\<close> in adapter A).
\<close>

record pass_vars =
  diagnostics :: "string list"
  assistantParts :: "string list"
  sessionKey :: "string option"

definition pass_init :: pass_vars where
  "pass_init = \<lparr>diagnostics = [], assistantParts = [], sessionKey = None\<rparr>"

definition codex_line :: "(string \<times> json) list \<Rightarrow> pass_vars \<Rightarrow> pass_vars" where
  "codex_line parsed v =
     (let tid = as_string (jprop parsed ''thread_id'');
          k1 = (if jprop parsed ''type'' = Some (JStr ''thread.started'') \<and> tid \<noteq> None then tid
                else sessionKey v);
          k2 = (if \<not> truthy k1 \<and> tid \<noteq> None then tid else k1)
      in v\<lparr>sessionKey := k2,
            assistantParts := appendUnique (assistantParts v) (extractCodexAssistantText parsed)\<rparr>)"

text \<open>
  The \<^verbatim>\<open>for\<close> loop over \<^verbatim>\<open>runResult.stdoutLines\<close>: \<open>Inl (msg, v)\<close> is the early return
  from the \<^verbatim>\<open>catch\<close>, with the variables at that moment.
\<close>

fun codex_pass :: "json_parse \<Rightarrow> string list \<Rightarrow> pass_vars \<Rightarrow> (string \<times> pass_vars) + pass_vars" where
  "codex_pass jp [] v = Inr v"
| "codex_pass jp (line # rest) v =
     (if \<not> isLikelyJsonObjectLine line
      then codex_pass jp rest (v\<lparr>diagnostics := diagnostics v @ [line]\<rparr>)
      else case parseOrEmpty jp line of
        Inl msg \<Rightarrow> Inl (msg, v)
      | Inr parsed \<Rightarrow> codex_pass jp rest (codex_line parsed v))"

definition key_state :: "string \<Rightarrow> string option \<Rightarrow> (string \<times> string) list" where
  "key_state name k = (case k of Some s \<Rightarrow> (if s \<noteq> '''' then [(name, s)] else []) | None \<Rightarrow> [])"

text \<open>
  \<^verbatim>\<open>CodexAdapter.run\<close>, with the requests it made of the runner. \<open>runner k\<close> answers the
  adapter's invocation number \<open>k\<close> (from 0) within this run. The \<^verbatim>\<open>onStdoutLine\<close> callback
  only reports progress and is left out.
\<close>

definition codex_run ::
  "json_parse \<Rightarrow> string \<Rightarrow> CommandRunner \<Rightarrow> AdapterRunInput \<Rightarrow> AdapterRunResult \<times> CommandRunRequest list" where
  "codex_run jp cmd runner input =
     (let req = \<lparr>command = cmd, args = codex_buildArgs input, req_cwd = cwd input,
                 req_timeoutSec = timeoutSec input\<rparr> in
      (case runner 0 req of
         Rejected msg \<Rightarrow> run_failure E_CLI_EXIT_NONZERO msg '''' [] [] [] []
       | Resolved r \<Rightarrow>
           if timedOut r then
             run_failure E_CLI_TIMEOUT ''codex command timed out'' '''' [] []
               (run_stdoutLines r) (run_stderrLines r)
           else
             (case codex_pass jp (run_stdoutLines r) pass_init of
                Inl (msg, v) \<Rightarrow>
                  run_failure E_ADAPTER_PARSE msg (join nl (assistantParts v)) [] (diagnostics v)
                    (run_stdoutLines r) (run_stderrLines r)
              | Inr v \<Rightarrow>
                  if exitCode r \<noteq> 0 then
                    run_failure E_CLI_EXIT_NONZERO (''codex exited with code '' @ dec_int (exitCode r))
                      (trim (join nl (assistantParts v))) (key_state ''thread_id'' (sessionKey v))
                      (diagnostics v) (run_stdoutLines r) (run_stderrLines r)
                  else if \<not> truthy (sessionKey v) then
                    run_failure E_ADAPTER_SESSION_KEY_MISSING ''codex did not emit thread_id''
                      (trim (join nl (assistantParts v))) [] (diagnostics v)
                      (run_stdoutLines r) (run_stderrLines r)
                  else
                    run_success (trim (join nl (assistantParts v)))
                      (key_state ''thread_id'' (sessionKey v)) (diagnostics v)
                      (run_stdoutLines r) (run_stderrLines r)),
       [req]))"

section \<open>Adapter A: the ClaudeAdapter document with \<^verbatim>\<open>appendUnique\<close>\<close>

definition claude_buildArgs :: "AdapterRunInput \<Rightarrow> string list" where
  "claude_buildArgs input =
     [''-p'', ''--dangerously-skip-permissions'', ''--verbose'', ''--output-format'', ''stream-json'']
     @ (case resumeKey input of
          Some key \<Rightarrow> (if key \<noteq> '''' then [''-r'', key] else [])
        | None \<Rightarrow> [])
     @ [prompt input]"

text \<open>The text blocks of \<^verbatim>\<open>message.content\<close>, as the inner \<^verbatim>\<open>for\<close> loop collects them.\<close>

fun claude_chunks :: "json list \<Rightarrow> string list" where
  "claude_chunks [] = []"
| "claude_chunks (JObj block # rest) =
     (if jprop block ''type'' = Some (JStr ''text'') then
        (case as_string (jprop block ''text'') of
           Some t \<Rightarrow> (if length t > 0 then t # claude_chunks rest else claude_chunks rest)
         | None \<Rightarrow> claude_chunks rest)
      else claude_chunks rest)"
| "claude_chunks (_ # rest) = claude_chunks rest"

definition extractClaudeAssistantText :: "(string \<times> json) list \<Rightarrow> string" where
  "extractClaudeAssistantText event =
     (if jprop event ''type'' = Some (JStr ''assistant'') then
        (case jprop event ''message'' of
           Some (JObj message) \<Rightarrow>
             (if jprop message ''role'' \<noteq> Some (JStr ''assistant'') then ''''
              else case jprop message ''content'' of
                Some (JArr content) \<Rightarrow> trim (join nl (claude_chunks content))
              | _ \<Rightarrow> '''')
         | _ \<Rightarrow> '''')
      else if jprop event ''type'' = Some (JStr ''result'') then
        (case as_string (jprop event ''result'') of
           Some r \<Rightarrow> (if length r > 0 then r else '''')
         | None \<Rightarrow> '''')
      else '''')"

definition claude_line :: "(string \<times> json) list \<Rightarrow> pass_vars \<Rightarrow> pass_vars" where
  "claude_line parsed v =
     (let sid = as_string (jprop parsed ''session_id'')
      in v\<lparr>sessionKey := (if sid \<noteq> None then sid else sessionKey v),
            assistantParts := appendUnique (assistantParts v) (extractClaudeAssistantText parsed)\<rparr>)"

fun claude_pass :: "json_parse \<Rightarrow> string list \<Rightarrow> pass_vars \<Rightarrow> (string \<times> pass_vars) + pass_vars" where
  "claude_pass jp [] v = Inr v"
| "claude_pass jp (line # rest) v =
     (if \<not> isLikelyJsonObjectLine line
      then claude_pass jp rest (v\<lparr>diagnostics := diagnostics v @ [line]\<rparr>)
      else case parseOrEmpty jp line of
        Inl msg \<Rightarrow> Inl (msg, v)
      | Inr parsed \<Rightarrow> claude_pass jp rest (claude_line parsed v))"

definition claude_run ::
  "json_parse \<Rightarrow> string \<Rightarrow> CommandRunner \<Rightarrow> AdapterRunInput \<Rightarrow> AdapterRunResult \<times> CommandRunRequest list" where
  "claude_run jp cmd runner input =
     (let req = \<lparr>command = cmd, args = claude_buildArgs input, req_cwd = cwd input,
                 req_timeoutSec = timeoutSec input\<rparr> in
      (case runner 0 req of
         Rejected msg \<Rightarrow> run_failure E_CLI_EXIT_NONZERO msg '''' [] [] [] []
       | Resolved r \<Rightarrow>
           if timedOut r then
             run_failure E_CLI_TIMEOUT ''claude command timed out'' '''' [] []
               (run_stdoutLines r) (run_stderrLines r)
           else
             (case claude_pass jp (run_stdoutLines r) pass_init of
                Inl (msg, v) \<Rightarrow>
                  run_failure E_ADAPTER_PARSE msg (trim (join nl (assistantParts v))) [] (diagnostics v)
                    (run_stdoutLines r) (run_stderrLines r)
              | Inr v \<Rightarrow>
                  if exitCode r \<noteq> 0 then
                    run_failure E_CLI_EXIT_NONZERO (''claude exited with code '' @ dec_int (exitCode r))
                      (trim (join nl (assistantParts v))) (key_state ''session_id'' (sessionKey v))
                      (diagnostics v) (run_stdoutLines r) (run_stderrLines r)
                  else if \<not> truthy (sessionKey v) then
                    run_failure E_ADAPTER_SESSION_KEY_MISSING ''claude did not emit session_id''
                      (trim (join nl (assistantParts v))) [] (diagnostics v)
                      (run_stdoutLines r) (run_stderrLines r)
                  else
                    run_success (trim (join nl (assistantParts v)))
                      (key_state ''session_id'' (sessionKey v)) (diagnostics v)
                      (run_stdoutLines r) (run_stderrLines r)),
       [req]))"

section \<open>Adapter C: the GeminiAdapter document (src/unnamed/part_001)\<close>

record GeminiParseResult =
  sessionId :: "string option"
  parsed_assistantText :: string
  parsed_diagnosticLogs :: "string list"
  hasResult :: bool
  resultStatus :: "string option"
  parseError :: "string option"

text \<open>The local variables of the loop of \<^verbatim>\<open>parseGemini\<close>.\<close>

record gemini_vars =
  g_diagnostics :: "string list"
  g_assistantParts :: "string list"
  g_sessionId :: "string option"
  g_hasResult :: bool
  g_resultStatus :: "string option"

definition gemini_init :: gemini_vars where
  "gemini_init =
     \<lparr>g_diagnostics = [], g_assistantParts = [], g_sessionId = None, g_hasResult = False,
      g_resultStatus = None\<rparr>"

text \<open>
  What one parsed line adds to \<^verbatim>\<open>assistantParts\<close>: a string \<^verbatim>\<open>delta\<close> as it is (also
  when empty), otherwise the non-empty result of \<^verbatim>\<open>extractAssistantText\<close>. Nothing is
  compared with the parts already there.
\<close>

definition gemini_chunk :: "(string \<times> json) list \<Rightarrow> string list" where
  "gemini_chunk parsed =
     (if jprop parsed ''type'' = Some (JStr ''message'') \<and> jprop parsed ''role'' = Some (JStr ''assistant'')
      then
        (case as_string (jprop parsed ''delta'') of
           Some d \<Rightarrow> [d]
         | None \<Rightarrow>
             (let extracted = extractAssistantText parsed in
                if length extracted > 0 then [extracted] else []))
      else [])"

definition gemini_line :: "(string \<times> json) list \<Rightarrow> gemini_vars \<Rightarrow> gemini_vars" where
  "gemini_line parsed v =
     (let sid = as_string (jprop parsed ''session_id'');
          is_result = (jprop parsed ''type'' = Some (JStr ''result''));
          status = as_string (jprop parsed ''status'')
      in v\<lparr>g_sessionId := (if sid \<noteq> None then sid else g_sessionId v),
            g_assistantParts := g_assistantParts v @ gemini_chunk parsed,
            g_hasResult := (if is_result then True else g_hasResult v),
            g_resultStatus := (if is_result \<and> status \<noteq> None then status else g_resultStatus v)\<rparr>)"

fun gemini_pass :: "json_parse \<Rightarrow> string list \<Rightarrow> gemini_vars \<Rightarrow> (string \<times> gemini_vars) + gemini_vars" where
  "gemini_pass jp [] v = Inr v"
| "gemini_pass jp (line # rest) v =
     (if \<not> isLikelyJsonObjectLine line
      then gemini_pass jp rest (v\<lparr>g_diagnostics := g_diagnostics v @ [line]\<rparr>)
      else case parseOrEmpty jp line of
        Inl msg \<Rightarrow> Inl (msg, v)
      | Inr parsed \<Rightarrow> gemini_pass jp rest (gemini_line parsed v))"

definition parseGemini :: "json_parse \<Rightarrow> string list \<Rightarrow> GeminiParseResult" where
  "parseGemini jp lines =
     (case gemini_pass jp lines gemini_init of
        Inl (msg, v) \<Rightarrow>
          \<lparr>sessionId = g_sessionId v, parsed_assistantText = join nl (g_assistantParts v),
           parsed_diagnosticLogs = g_diagnostics v, hasResult = g_hasResult v,
           resultStatus = g_resultStatus v, parseError = Some msg\<rparr>
      | Inr v \<Rightarrow>
          \<lparr>sessionId = g_sessionId v, parsed_assistantText = trim (join nl (g_assistantParts v)),
           parsed_diagnosticLogs = g_diagnostics v, hasResult = g_hasResult v,
           resultStatus = g_resultStatus v, parseError = None\<rparr>)"

definition gemini_buildArgs :: "AdapterRunInput \<Rightarrow> string list" where
  "gemini_buildArgs input =
     [''-p'', prompt input, ''--output-format'', ''stream-json'']
     @ (case resumeKey input of
          Some key \<Rightarrow> (if key \<noteq> '''' then [''--resume'', key] else [])
        | None \<Rightarrow> [])"

definition gemini_request :: "string \<Rightarrow> AdapterRunInput \<Rightarrow> CommandRunRequest" where
  "gemini_request cmd input =
     \<lparr>command = cmd, args = gemini_buildArgs input, req_cwd = cwd input,
      req_timeoutSec = timeoutSec input\<rparr>"

text \<open>
  The \<^verbatim>\<open>while (attempt < 2)\<close> loop of \<^verbatim>\<open>GeminiAdapter.run\<close>. \<open>attempt\<close> is the
  variable's value on entry to the iteration, which is also the number of runner
  invocations made so far; \<open>reqs\<close> collects the requests.
\<close>

function gemini_attempts ::
  "json_parse \<Rightarrow> string \<Rightarrow> CommandRunner \<Rightarrow> AdapterRunInput \<Rightarrow> nat \<Rightarrow> CommandRunRequest list
     \<Rightarrow> AdapterRunResult \<times> CommandRunRequest list" where
  "gemini_attempts jp cmd runner input attempt reqs =
     (if attempt < 2 then
        (let req = gemini_request cmd input in
         case runner attempt req of
           Rejected msg \<Rightarrow> (run_failure E_CLI_EXIT_NONZERO msg '''' [] [] [] [], reqs @ [req])
         | Resolved r \<Rightarrow>
             if timedOut r then
               (run_failure E_CLI_TIMEOUT ''gemini command timed out'' '''' [] []
                  (run_stdoutLines r) (run_stderrLines r), reqs @ [req])
             else
               (let parsed = parseGemini jp (run_stdoutLines r) in
                case parseError parsed of
                  Some msg \<Rightarrow>
                    (run_failure E_ADAPTER_PARSE msg (parsed_assistantText parsed) []
                       (parsed_diagnosticLogs parsed) (run_stdoutLines r) (run_stderrLines r),
                     reqs @ [req])
                | None \<Rightarrow>
                    if exitCode r \<noteq> 0 then
                      (if attempt + 1 = 1 \<and>
                          hasTransientErrorHint
                            (run_stdoutLines r @ run_stderrLines r @ parsed_diagnosticLogs parsed)
                       then gemini_attempts jp cmd runner input (attempt + 1) (reqs @ [req])
                       else
                         (run_failure E_CLI_EXIT_NONZERO
                            (''gemini exited with code '' @ dec_int (exitCode r))
                            (parsed_assistantText parsed) (key_state ''session_id'' (sessionId parsed))
                            (parsed_diagnosticLogs parsed) (run_stdoutLines r) (run_stderrLines r),
                          reqs @ [req]))
                    else if \<not> hasResult parsed then
                      (run_failure E_ADAPTER_MISSING_RESULT ''gemini stream-json missing result event''
                         (parsed_assistantText parsed) (key_state ''session_id'' (sessionId parsed))
                         (parsed_diagnosticLogs parsed) (run_stdoutLines r) (run_stderrLines r),
                       reqs @ [req])
                    else if resultStatus parsed \<noteq> Some ''success'' then
                      (run_failure E_CLI_EXIT_NONZERO
                         (''gemini result status is '' @
                            (case resultStatus parsed of Some s \<Rightarrow> s | None \<Rightarrow> ''unknown''))
                         (parsed_assistantText parsed) (key_state ''session_id'' (sessionId parsed))
                         (parsed_diagnosticLogs parsed) (run_stdoutLines r) (run_stderrLines r),
                       reqs @ [req])
                    else if \<not> truthy (sessionId parsed) then
                      (run_failure E_ADAPTER_SESSION_KEY_MISSING ''gemini did not emit session_id''
                         (parsed_assistantText parsed) [] (parsed_diagnosticLogs parsed)
                         (run_stdoutLines r) (run_stderrLines r),
                       reqs @ [req])
                    else
                      (run_success (parsed_assistantText parsed)
                         (key_state ''session_id'' (sessionId parsed)) (parsed_diagnosticLogs parsed)
                         (run_stdoutLines r) (run_stderrLines r),
                       reqs @ [req])))
      else (run_failure E_CLI_EXIT_NONZERO ''gemini retry exhausted'' '''' [] [] [] [], reqs))"
  by pat_completeness auto
termination
  by (relation "measure (\<lambda>(jp, cmd, runner, input, attempt, reqs). 2 - attempt)") auto

definition gemini_run ::
  "json_parse \<Rightarrow> string \<Rightarrow> CommandRunner \<Rightarrow> AdapterRunInput \<Rightarrow> AdapterRunResult \<times> CommandRunRequest list" where
  "gemini_run jp cmd runner input = gemini_attempts jp cmd runner input 0 []"

text \<open>
  The condition under which the first attempt is repeated: the runner resolved, the run
  did not time out, every line that looks like a JSON object parsed, the exit code is not
  zero, and a hint occurs in stdout, stderr or the diagnostic lines.
\<close>

definition gemini_retries :: "json_parse \<Rightarrow> RunnerReply \<Rightarrow> bool" where
  "gemini_retries jp reply =
     (case reply of
        Rejected msg \<Rightarrow> False
      | Resolved r \<Rightarrow>
          \<not> timedOut r \<and>
          parseError (parseGemini jp (run_stdoutLines r)) = None \<and>
          exitCode r \<noteq> 0 \<and>
          hasTransientErrorHint
            (run_stdoutLines r @ run_stderrLines r @
             parsed_diagnosticLogs (parseGemini jp (run_stdoutLines r))))"

section \<open>Scheduler: queue/session-queue.ts\<close>

record QueueSession =
  qs_queue :: "string list"
  qs_running :: "string option"

text \<open>
  \<^verbatim>\<open>SessionQueueScheduler\<close>. The \<^verbatim>\<open>sessions\<close> map keeps insertion order, as a JavaScript
  \<^verbatim>\<open>Map\<close> does; a session object is mutated in place, which \<^const>\<open>AList.update\<close> does
  for a key that is present.
\<close>

record SessionQueueScheduler =
  globalMaxRunning :: int
  sched_sessions :: "(string \<times> QueueSession) list"
  sched_dedupe :: "string \<rightharpoonup> string"
  runningTotal :: int

datatype sched_error =
    NotPositive
  | UnknownThread string
  | FinishMismatch "string option" string

definition new_scheduler :: "int \<Rightarrow> sched_error + SessionQueueScheduler" where
  "new_scheduler gmax =
     (if gmax < 1 then Inl NotPositive
      else Inr \<lparr>globalMaxRunning = gmax, sched_sessions = [], sched_dedupe = Map.empty,
                runningTotal = 0\<rparr>)"

definition mustGetSession :: "SessionQueueScheduler \<Rightarrow> string \<Rightarrow> sched_error + QueueSession" where
  "mustGetSession s threadId =
     (case map_of (sched_sessions s) threadId of
        None \<Rightarrow> Inl (UnknownThread threadId)
      | Some session \<Rightarrow> Inr session)"

definition ensureSession :: "string \<Rightarrow> SessionQueueScheduler \<Rightarrow> SessionQueueScheduler" where
  "ensureSession threadId s =
     (if map_of (sched_sessions s) threadId = None
      then s\<lparr>sched_sessions := sched_sessions s @ [(threadId, \<lparr>qs_queue = [], qs_running = None\<rparr>)]\<rparr>
      else s)"

definition enqueue :: "string \<Rightarrow> string \<Rightarrow> SessionQueueScheduler \<Rightarrow> sched_error + SessionQueueScheduler" where
  "enqueue threadId jobId s =
     (case mustGetSession s threadId of
        Inl e \<Rightarrow> Inl e
      | Inr session \<Rightarrow>
          Inr (s\<lparr>sched_sessions :=
                 AList.update threadId (session\<lparr>qs_queue := qs_queue session @ [jobId]\<rparr>)
                   (sched_sessions s)\<rparr>))"

text \<open>
  \<^verbatim>\<open>startNext\<close>: \<open>Inr (None, _)\<close> is the \<^verbatim>\<open>null\<close> return. \<^verbatim>\<open>queue.shift()\<close> removes the
  head before \<^verbatim>\<open>if (!next)\<close> is tested, so an empty-string head is removed and
  \<^verbatim>\<open>null\<close> is returned.
\<close>

definition startNext ::
  "string \<Rightarrow> SessionQueueScheduler \<Rightarrow> sched_error + (string option \<times> SessionQueueScheduler)" where
  "startNext threadId s =
     (case mustGetSession s threadId of
        Inl e \<Rightarrow> Inl e
      | Inr session \<Rightarrow>
          if qs_running session \<noteq> None then Inr (None, s)
          else if runningTotal s \<ge> globalMaxRunning s then Inr (None, s)
          else
            (case qs_queue session of
               [] \<Rightarrow> Inr (None, s)
             | next # rest \<Rightarrow>
                 if next = '''' then
                   Inr (None,
                     s\<lparr>sched_sessions :=
                         AList.update threadId (session\<lparr>qs_queue := rest\<rparr>) (sched_sessions s)\<rparr>)
                 else
                   Inr (Some next,
                     s\<lparr>sched_sessions :=
                         AList.update threadId (session\<lparr>qs_queue := rest, qs_running := Some next\<rparr>)
                           (sched_sessions s),
                       runningTotal := runningTotal s + 1\<rparr>)))"

definition finishRunning ::
  "string \<Rightarrow> string \<Rightarrow> SessionQueueScheduler \<Rightarrow> sched_error + SessionQueueScheduler" where
  "finishRunning threadId jobId s =
     (case mustGetSession s threadId of
        Inl e \<Rightarrow> Inl e
      | Inr session \<Rightarrow>
          if qs_running session \<noteq> Some jobId then Inl (FinishMismatch (qs_running session) jobId)
          else
            Inr (s\<lparr>sched_sessions :=
                     AList.update threadId (session\<lparr>qs_running := None\<rparr>) (sched_sessions s),
                   runningTotal := runningTotal s - 1\<rparr>))"

definition registerDedupe ::
  "string \<Rightarrow> string \<Rightarrow> string \<Rightarrow> SessionQueueScheduler \<Rightarrow> bool \<times> SessionQueueScheduler" where
  "registerDedupe threadId discordMessageId jobId s =
     (let key = threadId @ '':'' @ discordMessageId in
        if sched_dedupe s key \<noteq> None then (False, s)
        else (True, s\<lparr>sched_dedupe := (sched_dedupe s)(key \<mapsto> jobId)\<rparr>))"

definition lookupDedupe :: "string \<Rightarrow> string \<Rightarrow> SessionQueueScheduler \<Rightarrow> string option" where
  "lookupDedupe threadId discordMessageId s = sched_dedupe s (threadId @ '':'' @ discordMessageId)"

subsection \<open>Histories of scheduler calls\<close>

text \<open>
  A history is any sequence of calls of the scheduler's public methods. A call that throws
  leaves the scheduler as it was (every \<^verbatim>\<open>throw\<close> of the class precedes its first
  mutation) and the history goes on. Each call's outcome is recorded: a job accepted by
  \<^verbatim>\<open>enqueue\<close>, a job returned by \<^verbatim>\<open>startNext\<close>, a job accepted by \<^verbatim>\<open>finishRunning\<close>.
\<close>

datatype sched_call =
    EnsureSession string
  | Enqueue string string
  | StartNext string
  | FinishRunning string string
  | RegisterDedupe string string string

datatype sched_obs =
    Enqueued string string
  | Started string string
  | Finished string string

fun sched_step :: "sched_call \<Rightarrow> SessionQueueScheduler \<Rightarrow> SessionQueueScheduler \<times> sched_obs list" where
  "sched_step (EnsureSession t) s = (ensureSession t s, [])"
| "sched_step (Enqueue t j) s =
     (case enqueue t j s of Inl e \<Rightarrow> (s, []) | Inr s' \<Rightarrow> (s', [Enqueued t j]))"
| "sched_step (StartNext t) s =
     (case startNext t s of
        Inl e \<Rightarrow> (s, [])
      | Inr (None, s') \<Rightarrow> (s', [])
      | Inr (Some j, s') \<Rightarrow> (s', [Started t j]))"
| "sched_step (FinishRunning t j) s =
     (case finishRunning t j s of Inl e \<Rightarrow> (s, []) | Inr s' \<Rightarrow> (s', [Finished t j]))"
| "sched_step (RegisterDedupe t m j) s = (snd (registerDedupe t m j s), [])"

definition sched_run ::
  "sched_call list \<Rightarrow> SessionQueueScheduler \<Rightarrow> SessionQueueScheduler \<times> sched_obs list" where
  "sched_run calls s0 =
     foldl (\<lambda>(s, tr) c. let (s', obs) = sched_step c s in (s', tr @ obs)) (s0, []) calls"

fun enqueued_of :: "string \<Rightarrow> sched_obs list \<Rightarrow> string list" where
  "enqueued_of t [] = []"
| "enqueued_of t (Enqueued t' j # tr) = (if t' = t then j # enqueued_of t tr else enqueued_of t tr)"
| "enqueued_of t (_ # tr) = enqueued_of t tr"

fun started_of :: "string \<Rightarrow> sched_obs list \<Rightarrow> string list" where
  "started_of t [] = []"
| "started_of t (Started t' j # tr) = (if t' = t then j # started_of t tr else started_of t tr)"
| "started_of t (_ # tr) = started_of t tr"

fun finished_of :: "string \<Rightarrow> sched_obs list \<Rightarrow> string list" where
  "finished_of t [] = []"
| "finished_of t (Finished t' j # tr) = (if t' = t then j # finished_of t tr else finished_of t tr)"
| "finished_of t (_ # tr) = finished_of t tr"

text \<open>The number of sessions that hold a running job.\<close>

definition running_count :: "(string \<times> QueueSession) list \<Rightarrow> nat" where
  "running_count xs = length (filter (\<lambda>(t, q). qs_running q \<noteq> None) xs)"

text \<open>The jobs of a session that were started and have not finished.\<close>

definition in_flight :: "string \<Rightarrow> sched_obs list \<Rightarrow> string list" where
  "in_flight t tr = drop (length (finished_of t tr)) (started_of t tr)"


definition MAX_QUEUE_PER_SESSION :: nat where
  "MAX_QUEUE_PER_SESSION = 20"

section \<open>Runtime state (the entity types of state/replay.ts)\<close>

text \<open>
  \<^verbatim>\<open>state/replay.ts\<close> is not among the sources; the shape of its entity types is the one
  the tests build (\<^verbatim>\<open>createSession\<close>, \<^verbatim>\<open>createJob\<close>) and the one the service and the
  coordinator read. The job's \<^verbatim>\<open>thread_id\<close>, \<^verbatim>\<open>prompt\<close> and \<^verbatim>\<open>tool\<close> are the fields
  \<open>job_thread_id\<close>, \<open>job_prompt\<close> and \<open>job_tool\<close>. A \<^verbatim>\<open>Record<string, T>\<close> is an
  association list in the order \<^verbatim>\<open>Object.values\<close> enumerates it: insertion order, for
  keys that are not array indices (thread and job ids are not).
\<close>

datatype ToolName = gemini | codex | claude

datatype JobState = queued | running | success | failed | unknown_after_crash

record SessionEntity =
  thread_id :: string
  project_name :: string
  tool :: ToolName
  adapter_state :: "(string \<times> json) list"
  queue :: "string list"
  running_job_id :: "string option"
  last_job_id :: "string option"
  created_at :: string
  updated_at :: string
  last_activity_at :: string

record JobEntity =
  job_id :: string
  job_thread_id :: string
  discord_message_id :: string
  state :: JobState
  job_prompt :: string
  attempt :: nat
  job_tool :: ToolName
  error_code :: "string option"
  error_message :: "string option"
  started_at :: "string option"
  finished_at :: "string option"
  result_excerpt :: "string option"

record RuntimeState =
  sessions :: "(string \<times> SessionEntity) list"
  jobs :: "(string \<times> JobEntity) list"
  dedupe :: "string \<rightharpoonup> string"
  seq :: nat

section \<open>Coordinator: runner/job-coordinator.ts\<close>

text \<open>
  The body of the \<^verbatim>\<open>for\<close> loop of \<^verbatim>\<open>pickNextRunnable\<close> over the sorted sessions.
  \<^verbatim>\<open>session.queue[0]\<close> of an empty queue is \<^verbatim>\<open>undefined\<close>, and \<^verbatim>\<open>!nextJobId\<close> also
  holds for the empty string.
\<close>

fun pick_first :: "string list \<Rightarrow> SessionEntity list \<Rightarrow> (string \<times> string) option" where
  "pick_first runningThreads [] = None"
| "pick_first runningThreads (session # rest) =
     (if thread_id session \<in> set runningThreads then pick_first runningThreads rest
      else if running_job_id session \<noteq> None then pick_first runningThreads rest
      else
        (case queue session of
           [] \<Rightarrow> pick_first runningThreads rest
         | nextJobId # _ \<Rightarrow>
             if nextJobId = '''' then pick_first runningThreads rest
             else Some (thread_id session, nextJobId)))"

text \<open>
  \<^verbatim>\<open>pickNextRunnable\<close>. \<^verbatim>\<open>Array.prototype.sort\<close> is stable, and so is \<^const>\<open>sort_key\<close>.
  The comparator is \<^verbatim>\<open>localeCompare\<close> on \<^verbatim>\<open>last_activity_at\<close>; the timestamps are
  \<^verbatim>\<open>toISOString\<close> texts of one fixed layout, which it orders as the order on
  \<^typ>\<open>string\<close> does.
\<close>

definition pickNextRunnable :: "RuntimeState \<Rightarrow> string list \<Rightarrow> (string \<times> string) option" where
  "pickNextRunnable st runningThreads =
     pick_first runningThreads (sort_key last_activity_at (map snd (sessions st)))"

record JobCoordinator =
  co_globalMaxRunning :: int
  runningThreads :: "string list"
  kicking :: bool











section \<open>Events and the runtime store\<close>

text \<open>The event types and their payload fields, as the callers of \<^verbatim>\<open>appendEvent\<close> write them.\<close>

datatype event_payload =
    ProjectCreated string string "ToolName list"
  | SessionCreated string string ToolName "(string \<times> json) list"
  | ToolChanged string ToolName
  | JobEnqueued string string string string ToolName nat
  | JobStarted string string
  | JobProgress string string
  | JobCompleted string string string "(string \<times> json) list"
  | JobFailed string string string string "(string \<times> json) list option"
  | JobMarkedUnknownAfterCrash string string

record event =
  ev_seq :: nat
  ev_ts :: string
  payload :: event_payload

text \<open>\<^verbatim>\<open>{...old, ...new}\<close> on adapter state.\<close>

definition merge_state :: "(string \<times> json) list \<Rightarrow> (string \<times> json) list \<Rightarrow> (string \<times> json) list" where
  "merge_state old new = foldl (\<lambda>acc (k, v). AList.update k v acc) old new"

text \<open>
  Modelled from the spec: \<^verbatim>\<open>state/replay.ts\<close> (the application of an event to the state)
  is not among the sources. The definition follows the table "Event to state semantics" of
  section 4.5, row by row, and nothing else: an event that names a session or a job the
  state does not have changes nothing there, and the timestamps of a new session are the
  event's.
\<close>

definition applyEvent :: "RuntimeState \<Rightarrow> event \<Rightarrow> RuntimeState" where
  "applyEvent st e =
     (let ts = ev_ts e; st1 = st\<lparr>seq := ev_seq e\<rparr> in
      case payload e of
        ProjectCreated name path tools \<Rightarrow> st1
      | SessionCreated t p tn a \<Rightarrow>
          st1\<lparr>sessions :=
                AList.update t
                  \<lparr>thread_id = t, project_name = p, tool = tn, adapter_state = [], queue = [],
                   running_job_id = None, last_job_id = None, created_at = ts, updated_at = ts,
                   last_activity_at = ts\<rparr>
                  (sessions st1)\<rparr>
      | ToolChanged t tn \<Rightarrow>
          st1\<lparr>sessions := AList.map_entry t (\<lambda>s. s\<lparr>tool := tn\<rparr>) (sessions st1)\<rparr>
      | JobEnqueued t j m p tn a \<Rightarrow>
          st1\<lparr>jobs :=
                AList.update j
                  \<lparr>job_id = j, job_thread_id = t, discord_message_id = m, state = queued,
                   job_prompt = p, attempt = a, job_tool = tn, error_code = None,
                   error_message = None, started_at = None, finished_at = None,
                   result_excerpt = None\<rparr>
                  (jobs st1),
              sessions :=
                AList.map_entry t (\<lambda>s. s\<lparr>queue := queue s @ [j], last_activity_at := ts\<rparr>)
                  (sessions st1),
              dedupe := (dedupe st1)(t @ '':'' @ m \<mapsto> j)\<rparr>
      | JobStarted t j \<Rightarrow>
          st1\<lparr>jobs := AList.map_entry j (\<lambda>b. b\<lparr>state := running, started_at := Some ts\<rparr>) (jobs st1),
              sessions :=
                AList.map_entry t (\<lambda>s. s\<lparr>running_job_id := Some j, queue := tl (queue s)\<rparr>)
                  (sessions st1)\<rparr>
      | JobProgress t j \<Rightarrow> st1
      | JobCompleted t j excerpt a \<Rightarrow>
          st1\<lparr>jobs :=
                AList.map_entry j
                  (\<lambda>b. b\<lparr>state := success, finished_at := Some ts, result_excerpt := Some excerpt\<rparr>)
                  (jobs st1),
              sessions :=
                AList.map_entry t
                  (\<lambda>s. s\<lparr>running_job_id := None, last_job_id := Some j,
                         adapter_state := merge_state (adapter_state s) a\<rparr>)
                  (sessions st1)\<rparr>
      | JobFailed t j code msg a \<Rightarrow>
          st1\<lparr>jobs :=
                AList.map_entry j
                  (\<lambda>b. b\<lparr>state := failed, finished_at := Some ts, error_code := Some code,
                         error_message := Some msg\<rparr>)
                  (jobs st1),
              sessions :=
                AList.map_entry t
                  (\<lambda>s. s\<lparr>running_job_id := None, last_job_id := Some j,
                         adapter_state :=
                           (case a of None \<Rightarrow> adapter_state s
                            | Some a' \<Rightarrow> merge_state (adapter_state s) a')\<rparr>)
                  (sessions st1)\<rparr>
      | JobMarkedUnknownAfterCrash t j \<Rightarrow>
          st1\<lparr>jobs := AList.map_entry j (\<lambda>b. b\<lparr>state := unknown_after_crash\<rparr>) (jobs st1),
              sessions :=
                AList.map_entry t (\<lambda>s. s\<lparr>running_job_id := None, last_job_id := Some j\<rparr>)
                  (sessions st1)\<rparr>)"

text \<open>The store: the in-memory state and the event log it has written.\<close>

record RuntimeStore =
  rt_state :: RuntimeState
  events :: "event list"

definition empty_store :: RuntimeStore where
  "empty_store =
     \<lparr>rt_state = \<lparr>sessions = [], jobs = [], dedupe = Map.empty, seq = 0\<rparr>, events = []\<rparr>"

text \<open>
  Modelled from the spec: \<^verbatim>\<open>state/runtime-store.ts\<close> is not among the sources. Section 4.1,
  "Append": the envelope gets the next \<open>seq\<close> and the clock's \<open>ts\<close>, is appended to the log,
  and is then applied to the in-memory state.
\<close>

definition appendEvent :: "string \<Rightarrow> event_payload \<Rightarrow> RuntimeStore \<Rightarrow> RuntimeStore" where
  "appendEvent ts p store =
     (let e = \<lparr>ev_seq = seq (rt_state store) + 1, ev_ts = ts, payload = p\<rparr> in
        \<lparr>rt_state = applyEvent (rt_state store) e, events = events store @ [e]\<rparr>)"

text \<open>
  Modelled from the spec: \<^verbatim>\<open>RuntimeStore.recoverRunningJobsAfterCrash\<close> is not among the
  sources (only its call in \<^verbatim>\<open>index.ts\<close> and its test are). Section 4.1 (c): for every job
  whose state is \<open>running\<close> (\<open>running_jobs\<close>, in the order of the job table), a synthetic
  \<open>JobMarkedUnknownAfterCrash\<close> event is written (\<open>mark_jobs\<close>). The test expects the ids of
  the marked jobs as the result.
\<close>

definition running_jobs :: "RuntimeState \<Rightarrow> JobEntity list" where
  "running_jobs st = filter (\<lambda>b. state b = running) (map snd (jobs st))"

definition mark_jobs :: "string \<Rightarrow> JobEntity list \<Rightarrow> RuntimeStore \<Rightarrow> RuntimeStore" where
  "mark_jobs ts bs store =
     foldl (\<lambda>st b. appendEvent ts (JobMarkedUnknownAfterCrash (job_thread_id b) (job_id b)) st)
       store bs"

definition recoverRunningJobsAfterCrash :: "string \<Rightarrow> RuntimeStore \<Rightarrow> RuntimeStore \<times> string list" where
  "recoverRunningJobsAfterCrash ts store =
     (let marked = running_jobs (rt_state store) in
        (mark_jobs ts marked store, map job_id marked))"

text \<open>
  Modelled from the spec: startup replay from an empty state, section 4.1 (b). The events of
  the log, each with its timestamp, are applied in order; by (P2) a snapshot with its tail
  gives the same state.
\<close>

definition replay :: "(string \<times> event_payload) list \<Rightarrow> RuntimeStore" where
  "replay evs = foldl (\<lambda>st (ts, p). appendEvent ts p st) empty_store evs"

text \<open>
  The job table is a dictionary keyed by job id: no key occurs twice, and each entry carries
  its key as \<open>job_id\<close>.
\<close>

definition jobs_wf :: "RuntimeState \<Rightarrow> bool" where
  "jobs_wf st = (distinct (map fst (jobs st)) \<and> (\<forall>(k, b) \<in> set (jobs st). job_id b = k))"

section \<open>Service: agent/agent-service.ts\<close>

record AgentService =
  ownerId :: string
  idCounter :: nat
  store :: RuntimeStore

definition new_service :: "string \<Rightarrow> RuntimeStore \<Rightarrow> AgentService" where
  "new_service owner st = \<lparr>ownerId = owner, idCounter = 0, store = st\<rparr>"

text \<open>\<^verbatim>\<open>String.prototype.padStart(4, "0")\<close>.\<close>

definition padStart4 :: "string \<Rightarrow> string" where
  "padStart4 s = replicate (4 - length s) CHR ''0'' @ s"

text \<open>
  \<^verbatim>\<open>createJobId\<close>. \<open>nowIso\<close> is \<^verbatim>\<open>this.now().toISOString()\<close>, the clock's reading at the
  call; the regular expression \<^verbatim>\<open>/[-:.TZ]/g\<close> removes those five characters.
\<close>

definition createJobId :: "string \<Rightarrow> AgentService \<Rightarrow> string \<times> AgentService" where
  "createJobId nowIso svc =
     (let n = idCounter svc + 1;
          stamp = filter (\<lambda>c. c \<notin> set ''-:.TZ'') nowIso
      in (''job_'' @ stamp @ ''_'' @ padStart4 (dec_nat n), svc\<lparr>idCounter := n\<rparr>))"

record EnqueueResult =
  jobId :: string
  deduped :: bool

type_synonym DomainError = "ErrorCode \<times> string"

text \<open>
  \<^verbatim>\<open>enqueueThreadMessage\<close>, with the service after the call. \<open>Inl\<close> is a thrown
  \<^verbatim>\<open>DomainError\<close>; each \<^verbatim>\<open>throw\<close> precedes the first mutation. \<open>nowIso\<close> and \<open>ts\<close> are
  the readings of the service's and of the store's clock. \<^verbatim>\<open>if (existing)\<close> is a truthiness
  test. \<^verbatim>\<open>coordinator.notifyNewWork()\<close> acts on the coordinator only (see \<open>kick\<close>).
\<close>

definition enqueueThreadMessage ::
  "string \<Rightarrow> string \<Rightarrow> string \<Rightarrow> string \<Rightarrow> string \<Rightarrow> string \<Rightarrow> AgentService
     \<Rightarrow> (DomainError + EnqueueResult) \<times> AgentService" where
  "enqueueThreadMessage nowIso ts userId threadId messageId promptText svc =
     (if userId \<noteq> ownerId svc then (Inl (E_OWNER_ONLY, ''only owner can operate this bot''), svc)
      else
        (let st = rt_state (store svc) in
         case map_of (sessions st) threadId of
           None \<Rightarrow> (Inl (E_NOT_IN_MANAGED_THREAD, ''current thread is not managed''), svc)
         | Some session \<Rightarrow>
             (let dedupeKey = threadId @ '':'' @ messageId;
                  existing = dedupe st dedupeKey
              in if truthy existing then (Inr \<lparr>jobId = the existing, deduped = True\<rparr>, svc)
                 else if length (queue session) \<ge> MAX_QUEUE_PER_SESSION
                 then (Inl (E_QUEUE_FULL, ''session queue is full''), svc)
                 else
                   (case createJobId nowIso svc of
                      (newId, svc1) \<Rightarrow>
                        (Inr \<lparr>jobId = newId, deduped = False\<rparr>,
                         svc1\<lparr>store :=
                                appendEvent ts
                                  (JobEnqueued threadId newId messageId promptText (tool session) 1)
                                  (store svc1)\<rparr>)))))"

subsection \<open>Histories of the service\<close>

fun is_JobEnqueued :: "event_payload \<Rightarrow> bool" where
  "is_JobEnqueued (JobEnqueued t j m p tn a) = True"
| "is_JobEnqueued _ = False"

text \<open>
  A history in which every \<open>JobEnqueued\<close> event is written by \<open>enqueueThreadMessage\<close>: calls
  of it with any arguments, and events of the other types written by anyone (sessions
  created, tools changed, jobs started, finished and marked).
\<close>

datatype svc_op =
    EnqueueCall string string string string string string
  | OtherEvent string event_payload

fun svc_step :: "svc_op \<Rightarrow> AgentService \<Rightarrow> AgentService" where
  "svc_step (EnqueueCall nowIso ts userId threadId messageId promptText) svc =
     snd (enqueueThreadMessage nowIso ts userId threadId messageId promptText svc)"
| "svc_step (OtherEvent ts p) svc =
     (if is_JobEnqueued p then svc else svc\<lparr>store := appendEvent ts p (store svc)\<rparr>)"

definition svc_run :: "svc_op list \<Rightarrow> AgentService \<Rightarrow> AgentService" where
  "svc_run ops svc0 = foldl (\<lambda>svc opn. svc_step opn svc) svc0 ops"

text \<open>The dedup keys that the \<open>JobEnqueued\<close> events of a log carry, in log order.\<close>

fun enqueued_keys :: "event list \<Rightarrow> string list" where
  "enqueued_keys [] = []"
| "enqueued_keys (e # es) =
     (case payload e of
        JobEnqueued t j m p tn a \<Rightarrow> (t @ '':'' @ m) # enqueued_keys es
      | _ \<Rightarrow> enqueued_keys es)"

section \<open>Predicates and example data used by the theorems\<close>

text \<open>
  A session that \<^verbatim>\<open>pickNextRunnable\<close> does not skip: it is not being processed, it has no
  running job, and the head of its queue is a (non-empty) job id.
\<close>

definition runnable :: "string list \<Rightarrow> SessionEntity \<Rightarrow> bool" where
  "runnable R s =
     (thread_id s \<notin> set R \<and> running_job_id s = None \<and> queue s \<noteq> [] \<and> hd (queue s) \<noteq> '''')"

definition nonempty_ids :: "string list \<Rightarrow> string list" where
  "nonempty_ids js = filter (\<lambda>j. j \<noteq> '''') js"

text \<open>
  What a scheduler history says about one thread: the jobs enqueued (but for empty ids)
  are the jobs started followed by the queue, and the jobs started are the jobs finished
  followed by the running one.
\<close>

definition thread_ok :: "QueueSession option \<Rightarrow> string \<Rightarrow> sched_obs list \<Rightarrow> bool" where
  "thread_ok qo t tr =
     (case qo of
        None \<Rightarrow> enqueued_of t tr = [] \<and> started_of t tr = [] \<and> finished_of t tr = []
      | Some q \<Rightarrow>
          nonempty_ids (enqueued_of t tr) = started_of t tr @ nonempty_ids (qs_queue q) \<and>
          started_of t tr = finished_of t tr @ (case qs_running q of None \<Rightarrow> [] | Some j \<Rightarrow> [j]))"

definition sched_inv :: "SessionQueueScheduler \<Rightarrow> sched_obs list \<Rightarrow> bool" where
  "sched_inv s tr =
     (distinct (map fst (sched_sessions s)) \<and>
      runningTotal s = int (running_count (sched_sessions s)) \<and>
      runningTotal s \<le> globalMaxRunning s \<and>
      (\<forall>t. thread_ok (map_of (sched_sessions s) t) t tr))"

text \<open>A session as the tests' \<^verbatim>\<open>createSession\<close> builds it, with a queue and a timestamp.\<close>

definition createSession :: "string \<Rightarrow> string \<Rightarrow> string list \<Rightarrow> SessionEntity" where
  "createSession t ts q =
     \<lparr>thread_id = t, project_name = ''my-app'', tool = gemini, adapter_state = [], queue = q,
      running_job_id = None, last_job_id = None, created_at = ts, updated_at = ts,
      last_activity_at = ts\<rparr>"

definition state_of :: "SessionEntity list \<Rightarrow> RuntimeState" where
  "state_of ss = \<lparr>sessions = map (\<lambda>s. (thread_id s, s)) ss, jobs = [], dedupe = Map.empty, seq = 0\<rparr>"

text \<open>Two sessions created in the order b, a, each with one job enqueued in the same millisecond.\<close>

definition tie_state :: RuntimeState where
  "tie_state =
     state_of [createSession ''thread-b'' ''2026-02-26T14:00:00.000Z'' [''job-b''],
               createSession ''thread-a'' ''2026-02-26T14:00:00.000Z'' [''job-a'']]"

definition three_threads :: RuntimeState where
  "three_threads =
     state_of [createSession ''thread-b'' ''2026-02-26T14:00:02.000Z'' [''job-b''],
               createSession ''thread-c'' ''2026-02-26T14:00:01.000Z'' [''job-c'', ''job-c2''],
               createSession ''thread-a'' ''2026-02-26T14:00:01.000Z'' [''job-a'']]"



text \<open>The history of the test "enforces single-consumer FIFO per thread".\<close>

definition fifo_calls :: "sched_call list" where
  "fifo_calls =
     [EnsureSession ''thread-a'', Enqueue ''thread-a'' ''job-1'', Enqueue ''thread-a'' ''job-2'',
      StartNext ''thread-a'', StartNext ''thread-a'', FinishRunning ''thread-a'' ''job-1'',
      StartNext ''thread-a'']"

subsection \<open>Service histories and recovery\<close>

text \<open>Calls of \<open>enqueueThreadMessage\<close> by one user in one thread, one per message id.\<close>

definition enq_ops :: "string \<Rightarrow> string \<Rightarrow> string \<Rightarrow> string \<Rightarrow> string \<Rightarrow> string list \<Rightarrow> svc_op list" where
  "enq_ops nowIso ts owner t p ms = map (\<lambda>m. EnqueueCall nowIso ts owner t m p) ms"

text \<open>
  The dedup index and the log agree: the keys of the index are the keys the \<open>JobEnqueued\<close>
  events carry, no key is carried twice, and no indexed job id is empty.
\<close>

definition dedupe_inv :: "AgentService \<Rightarrow> bool" where
  "dedupe_inv svc =
     (set (enqueued_keys (events (store svc))) = dom (dedupe (rt_state (store svc))) \<and>
      distinct (enqueued_keys (events (store svc))) \<and>
      (\<forall>k v. dedupe (rt_state (store svc)) k = Some v \<longrightarrow> v \<noteq> ''''))"

text \<open>Message ids \<open>m1\<close> to \<open>m19\<close>, and with \<open>m20\<close>.\<close>

definition nineteen :: "string list" where
  "nineteen = [''m1'', ''m2'', ''m3'', ''m4'', ''m5'', ''m6'', ''m7'', ''m8'', ''m9'', ''m10'',
               ''m11'', ''m12'', ''m13'', ''m14'', ''m15'', ''m16'', ''m17'', ''m18'', ''m19'']"

definition twenty :: "string list" where
  "twenty = nineteen @ [''m20'']"

text \<open>
  The service of owner \<open>owner-1\<close> after the session \<open>thread-a\<close> is created and the owner has
  sent the messages \<open>ms\<close> there, no job having started.
\<close>

definition thread_a_ops :: "string list \<Rightarrow> svc_op list" where
  "thread_a_ops ms =
     OtherEvent ''2026-02-26T14:00:00.000Z'' (SessionCreated ''thread-a'' ''my-app'' gemini [])
     # enq_ops ''2026-02-26T14:00:00.000Z'' ''2026-02-26T14:00:00.001Z'' ''owner-1'' ''thread-a'' ''p'' ms"

definition svc_after :: "string list \<Rightarrow> AgentService" where
  "svc_after ms = svc_run (thread_a_ops ms) (new_service ''owner-1'' empty_store)"

text \<open>
  The envelope of the synthetic event for the \<open>i\<close>-th marked job, written when the state's
  \<open>seq\<close> was \<open>n\<close> before recovery.
\<close>

definition mark_event :: "string \<Rightarrow> nat \<Rightarrow> nat \<times> JobEntity \<Rightarrow> event" where
  "mark_event ts n ib =
     \<lparr>ev_seq = n + 1 + fst ib, ev_ts = ts,
      payload = JobMarkedUnknownAfterCrash (job_thread_id (snd ib)) (job_id (snd ib))\<rparr>"

text \<open>
  The log of the recovery test (tests/runtime/runtime-store.test.ts): a session, one job
  enqueued and started; the job and the session as they are after replay.
\<close>

definition crash_events :: "(string \<times> event_payload) list" where
  "crash_events =
     [(''2026-02-26T14:00:00.000Z'', SessionCreated ''thread-a'' ''my-app'' gemini []),
      (''2026-02-26T14:00:01.000Z'', JobEnqueued ''thread-a'' ''job-1'' ''msg-1'' ''hello'' gemini 1),
      (''2026-02-26T14:00:02.000Z'', JobStarted ''thread-a'' ''job-1'')]"

definition crash_job :: JobEntity where
  "crash_job =
     \<lparr>job_id = ''job-1'', job_thread_id = ''thread-a'', discord_message_id = ''msg-1'',
      state = running, job_prompt = ''hello'', attempt = 1, job_tool = gemini, error_code = None,
      error_message = None, started_at = Some ''2026-02-26T14:00:02.000Z'', finished_at = None,
      result_excerpt = None\<rparr>"

definition crash_session :: SessionEntity where
  "crash_session =
     \<lparr>thread_id = ''thread-a'', project_name = ''my-app'', tool = gemini, adapter_state = [],
      queue = [], running_job_id = Some ''job-1'', last_job_id = None,
      created_at = ''2026-02-26T14:00:00.000Z'', updated_at = ''2026-02-26T14:00:00.000Z'',
      last_activity_at = ''2026-02-26T14:00:01.000Z''\<rparr>"

section \<open>Example streams for the adapters\<close>

text \<open>
  The texts that the JSON lines of a stream contribute, in document order, up to the first
  line that fails to parse: \<open>f\<close> gives what one parsed line contributes.
\<close>

fun line_texts :: "json_parse \<Rightarrow> ((string \<times> json) list \<Rightarrow> string list) \<Rightarrow> string list \<Rightarrow> string list" where
  "line_texts jp f [] = []"
| "line_texts jp f (line # rest) =
     (if \<not> isLikelyJsonObjectLine line then line_texts jp f rest
      else case parseOrEmpty jp line of
        Inl msg \<Rightarrow> []
      | Inr parsed \<Rightarrow> f parsed @ line_texts jp f rest)"

text \<open>
  \<^verbatim>\<open>JSON.parse\<close> on the lines of the examples: lines of the adapter tests, with the value
  \<^verbatim>\<open>JSON.parse\<close> returns for each. Every other line of the examples is not JSON.
\<close>

definition example_lines :: "(string \<times> json) list" where
  \<open>example_lines =
     [(''{"type":"init","session_id":"gmn-1"}'',
         JObj [(''type'', JStr ''init''), (''session_id'', JStr ''gmn-1'')]),
      (''{"type":"message","role":"assistant","delta":"Hello"}'',
         JObj [(''type'', JStr ''message''), (''role'', JStr ''assistant''), (''delta'', JStr ''Hello'')]),
      (''{"type":"result","status":"success"}'',
         JObj [(''type'', JStr ''result''), (''status'', JStr ''success'')]),
      (''{"type":"thread.started","thread_id":"codex-thread-1"}'',
         JObj [(''type'', JStr ''thread.started''), (''thread_id'', JStr ''codex-thread-1'')]),
      (''{"type":"item.started","item":{"id":"item_1","type":"agent_message","text":"hello"}}'',
         JObj [(''type'', JStr ''item.started''),
               (''item'', JObj [(''id'', JStr ''item_1''), (''type'', JStr ''agent_message''),
                                (''text'', JStr ''hello'')])]),
      (''{"type":"item.completed","item":{"id":"item_1","type":"agent_message","text":"hello"}}'',
         JObj [(''type'', JStr ''item.completed''),
               (''item'', JObj [(''id'', JStr ''item_1''), (''type'', JStr ''agent_message''),
                                (''text'', JStr ''hello'')])]),
      (''{"type":"assistant","session_id":"claude-session-1","message":{"role":"assistant","content":[{"type":"text","text":"ok"}]}}'',
         JObj [(''type'', JStr ''assistant''), (''session_id'', JStr ''claude-session-1''),
               (''message'', JObj [(''role'', JStr ''assistant''),
                  (''content'', JArr [JObj [(''type'', JStr ''text''), (''text'', JStr ''ok'')]])])]),
      (''{"type":"result","subtype":"success","session_id":"claude-session-1","result":"ok"}'',
         JObj [(''type'', JStr ''result''), (''subtype'', JStr ''success''),
               (''session_id'', JStr ''claude-session-1''), (''result'', JStr ''ok'')])]\<close>

definition example_parse :: json_parse where
  "example_parse line =
     (case map_of example_lines line of
        Some v \<Rightarrow> Inr v
      | None \<Rightarrow> Inl ''Unexpected token in JSON'')"

text \<open>The input and the runner replies of the adapter tests, and variations of them.\<close>

definition hi_input :: AdapterRunInput where
  "hi_input = \<lparr>prompt = ''hi'', cwd = ''/tmp'', timeoutSec = 30, resumeKey = None\<rparr>"

definition quota_then_ok :: CommandRunner where
  \<open>quota_then_ok k req =
     (if k = 0 then
        Resolved \<lparr>exitCode = 1, timedOut = False, run_stdoutLines = [],
                  run_stderrLines = [''quota exceeded, retry later'']\<rparr>
      else
        Resolved \<lparr>exitCode = 0, timedOut = False,
                  run_stdoutLines = [''{"type":"init","session_id":"gmn-1"}'',
                                     ''{"type":"result","status":"success"}''],
                  run_stderrLines = []\<rparr>)\<close>

definition quota_unparsable :: CommandRunner where
  "quota_unparsable k req =
     Resolved \<lparr>exitCode = 1, timedOut = False,
               run_stdoutLines = [''{ code: 429, status: RESOURCE_EXHAUSTED }''],
               run_stderrLines = [''quota exceeded, retry later'']\<rparr>"

definition quota_timed_out :: CommandRunner where
  "quota_timed_out k req =
     Resolved \<lparr>exitCode = 1, timedOut = True, run_stdoutLines = [],
               run_stderrLines = [''quota exceeded, retry later'']\<rparr>"

definition hello_twice :: CommandRunner where
  \<open>hello_twice k req =
     Resolved \<lparr>exitCode = 0, timedOut = False,
               run_stdoutLines = [''{"type":"init","session_id":"gmn-1"}'',
                                  ''{"type":"message","role":"assistant","delta":"Hello"}'',
                                  ''{"type":"message","role":"assistant","delta":"Hello"}'',
                                  ''{"type":"result","status":"success"}''],
               run_stderrLines = []\<rparr>\<close>

definition codex_dup_lines :: "string list" where
  \<open>codex_dup_lines =
     [''{"type":"thread.started","thread_id":"codex-thread-1"}'',
      ''{"type":"item.started","item":{"id":"item_1","type":"agent_message","text":"hello"}}'',
      ''{"type":"item.completed","item":{"id":"item_1","type":"agent_message","text":"hello"}}'']\<close>

definition claude_dup_lines :: "string list" where
  \<open>claude_dup_lines =
     [''{"type":"assistant","session_id":"claude-session-1","message":{"role":"assistant","content":[{"type":"text","text":"ok"}]}}'',
      ''{"type":"result","subtype":"success","session_id":"claude-session-1","result":"ok"}'']\<close>

definition gemini_dup_lines :: "string list" where
  \<open>gemini_dup_lines =
     [''{"type":"init","session_id":"gmn-1"}'',
      ''{"type":"message","role":"assistant","delta":"Hello"}'',
      ''{"type":"message","role":"assistant","delta":"Hello"}'',
      ''{"type":"result","status":"success"}'']\<close>

section \<open>Auxiliary lemmas\<close>

lemma enqueued_of_append: "enqueued_of t (tr @ tr') = enqueued_of t tr @ enqueued_of t tr'"
  by (induction t tr rule: enqueued_of.induct) auto

lemma started_of_append: "started_of t (tr @ tr') = started_of t tr @ started_of t tr'"
  by (induction t tr rule: started_of.induct) auto

lemma finished_of_append: "finished_of t (tr @ tr') = finished_of t tr @ finished_of t tr'"
  by (induction t tr rule: finished_of.induct) auto

lemma running_count_append: "running_count (xs @ ys) = running_count xs + running_count ys"
  by (simp add: running_count_def)

lemma running_count_update_same:
  "map_of xs t = Some q \<Longrightarrow> (qs_running q' = None) = (qs_running q = None) \<Longrightarrow>
   distinct (map fst xs) \<Longrightarrow>
   running_count (AList.update t q' xs) = running_count xs"
  by (induction xs) (auto simp: running_count_def)

lemma running_count_update_start:
  "map_of xs t = Some q \<Longrightarrow> qs_running q = None \<Longrightarrow> qs_running q' \<noteq> None \<Longrightarrow>
   distinct (map fst xs) \<Longrightarrow>
   running_count (AList.update t q' xs) = Suc (running_count xs)"
  by (induction xs) (auto simp: running_count_def)

lemma running_count_update_finish:
  "map_of xs t = Some q \<Longrightarrow> qs_running q \<noteq> None \<Longrightarrow> qs_running q' = None \<Longrightarrow>
   distinct (map fst xs) \<Longrightarrow>
   Suc (running_count (AList.update t q' xs)) = running_count xs"
  by (induction xs) (auto simp: running_count_def)

lemma sched_inv_new: "new_scheduler gmax = Inr s0 \<Longrightarrow> sched_inv s0 []"
  by (auto simp: new_scheduler_def sched_inv_def running_count_def thread_ok_def split: if_splits)

lemma sched_inv_step:
  assumes "sched_inv s tr" and "sched_step c s = (s', obs)"
  shows "sched_inv s' (tr @ obs)"
proof (cases c)
  case (EnsureSession t)
  show ?thesis
  proof (cases "map_of (sched_sessions s) t")
    case (Some q)
    with assms EnsureSession show ?thesis by (simp add: ensureSession_def)
  next
    case None
    with assms(2) EnsureSession have s': "s' = s\<lparr>sched_sessions := sched_sessions s @ [(t, \<lparr>qs_queue = [], qs_running = None\<rparr>)]\<rparr>"
      and obs: "obs = []"
      by (auto simp: ensureSession_def)
    from assms(1) have d: "distinct (map fst (sched_sessions s))" by (simp add: sched_inv_def)
    from None have nt: "t \<notin> fst ` set (sched_sessions s)" by (simp add: map_of_eq_None_iff)
    have rc: "running_count (sched_sessions s') = running_count (sched_sessions s)"
      by (simp add: s' running_count_append) (simp add: running_count_def)
    have th: "thread_ok (map_of (sched_sessions s') u) u (tr @ obs)" for u
    proof -
      from assms(1) have ok: "thread_ok (map_of (sched_sessions s) u) u tr" by (simp add: sched_inv_def)
      show ?thesis
      proof (cases "u = t")
        case True
        with ok None show ?thesis
          by (simp add: s' obs thread_ok_def map_add_def nonempty_ids_def)
      next
        case False
        with ok show ?thesis
          by (cases "map_of (sched_sessions s) u") (simp_all add: s' obs thread_ok_def map_add_def)
      qed
    qed
    from assms(1) rc th d nt show ?thesis
      by (auto simp: sched_inv_def s')
  qed
next
  case (Enqueue t j)
  show ?thesis
  proof (cases "map_of (sched_sessions s) t")
    case None
    with assms Enqueue show ?thesis by (simp add: enqueue_def mustGetSession_def)
  next
    case (Some q)
    with assms Enqueue have s': "s' = s\<lparr>sched_sessions := AList.update t (q\<lparr>qs_queue := qs_queue q @ [j]\<rparr>) (sched_sessions s)\<rparr>"
      and obs: "obs = [Enqueued t j]"
      by (auto simp: enqueue_def mustGetSession_def)
    from assms(1) have d: "distinct (map fst (sched_sessions s))" by (simp add: sched_inv_def)
    have rc: "running_count (sched_sessions s') = running_count (sched_sessions s)"
      unfolding s' using running_count_update_same[OF Some _ d] by simp
    have th: "thread_ok (map_of (sched_sessions s') u) u (tr @ obs)" for u
    proof -
      from assms(1) have ok: "thread_ok (map_of (sched_sessions s) u) u tr" by (simp add: sched_inv_def)
      show ?thesis
      proof (cases "u = t")
        case True
        with ok Some show ?thesis
          by (auto simp: s' obs thread_ok_def update_conv' enqueued_of_append started_of_append
              finished_of_append nonempty_ids_def)
      next
        case False
        with ok show ?thesis
          by (auto simp: s' obs thread_ok_def update_conv' enqueued_of_append started_of_append
              finished_of_append split: option.splits)
      qed
    qed
    from assms(1) rc th d show ?thesis
      by (auto simp: sched_inv_def s' distinct_update)
  qed
next
  case (StartNext t)
  show ?thesis
  proof (cases "map_of (sched_sessions s) t")
    case None
    with assms StartNext show ?thesis by (simp add: startNext_def mustGetSession_def)
  next
    case (Some q)
    from assms(1) have d: "distinct (map fst (sched_sessions s))" by (simp add: sched_inv_def)
    from assms(1) have okt: "thread_ok (Some q) t tr" using Some by (auto simp: sched_inv_def dest: spec[of _ t])
    consider (stay) "s' = s" "obs = []"
      | (drop) rest where "qs_running q = None" "qs_queue q = '''' # rest"
          "s' = s\<lparr>sched_sessions := AList.update t (q\<lparr>qs_queue := rest\<rparr>) (sched_sessions s)\<rparr>" "obs = []"
      | (start) j rest where "qs_running q = None" "qs_queue q = j # rest" "j \<noteq> ''''"
          "runningTotal s < globalMaxRunning s"
          "s' = s\<lparr>sched_sessions := AList.update t (q\<lparr>qs_queue := rest, qs_running := Some j\<rparr>) (sched_sessions s),
                  runningTotal := runningTotal s + 1\<rparr>" "obs = [Started t j]"
      using assms(2) StartNext Some
      by (auto simp: startNext_def mustGetSession_def split: if_splits list.splits)
    then show ?thesis
    proof cases
      case stay
      with assms(1) show ?thesis by simp
    next
      case drop
      have rc: "running_count (sched_sessions s') = running_count (sched_sessions s)"
        unfolding drop(3) using running_count_update_same[OF Some _ d] by simp
      have th: "thread_ok (map_of (sched_sessions s') u) u (tr @ obs)" for u
      proof -
        from assms(1) have ok: "thread_ok (map_of (sched_sessions s) u) u tr" by (simp add: sched_inv_def)
        show ?thesis
        proof (cases "u = t")
          case True
          with okt drop show ?thesis
            by (auto simp: thread_ok_def update_conv' nonempty_ids_def)
        next
          case False
          with ok show ?thesis
            by (auto simp: drop thread_ok_def update_conv' split: option.splits)
        qed
      qed
      from assms(1) rc th d show ?thesis
        by (auto simp: sched_inv_def drop(3) distinct_update)
    next
      case start
      have rc: "running_count (sched_sessions s') = Suc (running_count (sched_sessions s))"
        unfolding start(5) using running_count_update_start[OF Some start(1) _ d] by simp
      have th: "thread_ok (map_of (sched_sessions s') u) u (tr @ obs)" for u
      proof -
        from assms(1) have ok: "thread_ok (map_of (sched_sessions s) u) u tr" by (simp add: sched_inv_def)
        show ?thesis
        proof (cases "u = t")
          case True
          with okt start show ?thesis
            by (auto simp: thread_ok_def update_conv' nonempty_ids_def started_of_append
                enqueued_of_append finished_of_append)
        next
          case False
          with ok show ?thesis
            by (auto simp: start thread_ok_def update_conv' started_of_append
                enqueued_of_append finished_of_append split: option.splits)
        qed
      qed
      from assms(1) rc th d start(4) show ?thesis
        by (auto simp: sched_inv_def start(5) distinct_update)
    qed
  qed
next
  case (FinishRunning t j)
  show ?thesis
  proof (cases "map_of (sched_sessions s) t")
    case None
    with assms FinishRunning show ?thesis by (simp add: finishRunning_def mustGetSession_def)
  next
    case (Some q)
    from assms(1) have d: "distinct (map fst (sched_sessions s))" by (simp add: sched_inv_def)
    from assms(1) have okt: "thread_ok (Some q) t tr" using Some by (auto simp: sched_inv_def dest: spec[of _ t])
    show ?thesis
    proof (cases "qs_running q = Some j")
      case False
      with assms FinishRunning Some show ?thesis by (simp add: finishRunning_def mustGetSession_def)
    next
      case True
      with assms(2) FinishRunning Some have s': "s' = s\<lparr>sched_sessions := AList.update t (q\<lparr>qs_running := None\<rparr>) (sched_sessions s),
                   runningTotal := runningTotal s - 1\<rparr>" and obs: "obs = [Finished t j]"
        by (auto simp: finishRunning_def mustGetSession_def)
      have rc: "Suc (running_count (sched_sessions s')) = running_count (sched_sessions s)"
        unfolding s' using running_count_update_finish[OF Some _ _ d, of "q\<lparr>qs_running := None\<rparr>"] True by simp
      have th: "thread_ok (map_of (sched_sessions s') u) u (tr @ obs)" for u
      proof -
        from assms(1) have ok: "thread_ok (map_of (sched_sessions s) u) u tr" by (simp add: sched_inv_def)
        show ?thesis
        proof (cases "u = t")
          case True
          with okt \<open>qs_running q = Some j\<close> show ?thesis
            by (auto simp: s' obs thread_ok_def update_conv' started_of_append
                enqueued_of_append finished_of_append)
        next
          case False
          with ok show ?thesis
            by (auto simp: s' obs thread_ok_def update_conv' started_of_append
                enqueued_of_append finished_of_append split: option.splits)
        qed
      qed
      from assms(1) rc th d show ?thesis
        by (auto simp: sched_inv_def s' distinct_update)
    qed
  qed
next
  case (RegisterDedupe t m j)
  with assms show ?thesis
    by (auto simp: registerDedupe_def sched_inv_def Let_def split: if_splits)
qed

lemma sched_run_snoc:
  "sched_run (calls @ [c]) s0 =
     (let (s, tr) = sched_run calls s0; (s', obs) = sched_step c s in (s', tr @ obs))"
  by (simp add: sched_run_def split: prod.splits)

lemma sched_inv_run:
  "sched_inv s0 [] \<Longrightarrow> sched_inv (fst (sched_run calls s0)) (snd (sched_run calls s0))"
proof (induction calls rule: rev_induct)
  case Nil
  then show ?case by (simp add: sched_run_def)
next
  case (snoc c calls)
  obtain s tr where r: "sched_run calls s0 = (s, tr)" by (cases "sched_run calls s0")
  obtain s' obs where st: "sched_step c s = (s', obs)" by (cases "sched_step c s")
  from snoc r have "sched_inv s tr" by simp
  from sched_inv_step[OF this st] show ?case
    by (simp add: sched_run_snoc r st)
qed
















lemma pick_first_find:
  "pick_first R ss = map_option (\<lambda>s. (thread_id s, hd (queue s))) (find (runnable R) ss)"
  by (induction ss) (auto simp: runnable_def split: list.splits)

lemma find_filter_hd: "find P xs = (case filter P xs of [] \<Rightarrow> None | y # _ \<Rightarrow> Some y)"
  by (induction xs) auto

lemma hd_sort_key_stable:
  fixes f :: "'a \<Rightarrow> 'k::linorder"
  assumes "ys \<noteq> []"
  shows "f (hd (sort_key f ys)) = Min (f ` set ys)"
    and "hd (sort_key f ys) = hd (filter (\<lambda>y. f y = Min (f ` set ys)) ys)"
proof -
  let ?zs = "sort_key f ys"
  from assms have ne: "?zs \<noteq> []" by (metis length_0_conv length_sort)
  then obtain z zs' where zs: "?zs = z # zs'" by (cases ?zs) auto
  have sorted: "sorted (map f ?zs)" by (rule sorted_sort_key)
  have set_eq: "set ?zs = set ys" by simp
  have "\<forall>y \<in> set ys. f z \<le> f y"
  proof
    fix y assume "y \<in> set ys"
    then have "y \<in> set ?zs" by simp
    with sorted zs show "f z \<le> f y" by auto
  qed
  moreover have "z \<in> set ys" using zs set_eq by (metis list.set_intros(1))
  ultimately have m: "f z = Min (f ` set ys)"
    by (intro antisym) (auto intro!: Min.boundedI Min_le)
  then show "f (hd (sort_key f ys)) = Min (f ` set ys)" by (simp add: zs)
  have "filter (\<lambda>y. f y = Min (f ` set ys)) ?zs = filter (\<lambda>y. f y = Min (f ` set ys)) ys"
    by (rule sort_key_stable)
  then have "hd (filter (\<lambda>y. f y = Min (f ` set ys)) ys) = hd (filter (\<lambda>y. f y = Min (f ` set ys)) ?zs)"
    by simp
  also have "\<dots> = z" using m by (simp add: zs)
  finally show "hd (sort_key f ys) = hd (filter (\<lambda>y. f y = Min (f ` set ys)) ys)"
    by (simp add: zs)
qed

lemma find_sort_key:
  fixes f :: "'a \<Rightarrow> 'k::linorder"
  shows "find P (sort_key f xs) =
     (if filter P xs = [] then None
      else find (\<lambda>y. P y \<and> f y = Min (f ` set (filter P xs))) xs)"
proof (cases "filter P xs = []")
  case True
  then show ?thesis by (simp add: find_filter_hd filter_sort)
next
  case False
  let ?ys = "filter P xs"
  let ?m = "Min (f ` set ?ys)"
  have "find P (sort_key f xs) = Some (hd (sort_key f ?ys))"
    using False by (auto simp: find_filter_hd filter_sort split: list.splits)
      (metis length_0_conv length_sort)
  also have "hd (sort_key f ?ys) = hd (filter (\<lambda>y. f y = ?m) ?ys)"
    by (rule hd_sort_key_stable(2)[OF False])
  also have "filter (\<lambda>y. f y = ?m) ?ys = filter (\<lambda>y. P y \<and> f y = ?m) xs"
    by (simp add: conj_commute)
  finally have a: "find P (sort_key f xs) = Some (hd (filter (\<lambda>y. P y \<and> f y = ?m) xs))" .
  have "f (hd (sort_key f ?ys)) = ?m" by (rule hd_sort_key_stable(1)[OF False])
  moreover have "hd (sort_key f ?ys) \<in> set ?ys"
    using False by (metis hd_in_set length_0_conv length_sort set_sort)
  ultimately have "filter (\<lambda>y. P y \<and> f y = ?m) xs \<noteq> []"
    by (auto simp: filter_empty_conv)
  then have "find (\<lambda>y. P y \<and> f y = ?m) xs = Some (hd (filter (\<lambda>y. P y \<and> f y = ?m) xs))"
    by (auto simp: find_filter_hd split: list.splits)
  with a False show ?thesis by simp
qed

lemma pickNextRunnable_None:
  "pickNextRunnable st R = None \<longleftrightarrow> (\<forall>s \<in> set (map snd (sessions st)). \<not> runnable R s)"
  by (auto simp: pickNextRunnable_def pick_first_find find_None_iff)

lemma pickNextRunnable_Some:
  assumes "pickNextRunnable st R = Some (t, j)"
  shows "\<exists>i < length (sessions st).
           runnable R (snd (sessions st ! i)) \<and>
           t = thread_id (snd (sessions st ! i)) \<and>
           j = hd (queue (snd (sessions st ! i))) \<and>
           (\<forall>k < length (sessions st).
              runnable R (snd (sessions st ! k)) \<longrightarrow>
                last_activity_at (snd (sessions st ! i)) \<le> last_activity_at (snd (sessions st ! k)) \<and>
                (last_activity_at (snd (sessions st ! k)) = last_activity_at (snd (sessions st ! i))
                   \<longrightarrow> i \<le> k))"
proof -
  let ?vals = "map snd (sessions st)"
  let ?ys = "filter (runnable R) ?vals"
  let ?m = "Min (last_activity_at ` set ?ys)"
  from assms obtain s where f: "find (runnable R) (sort_key last_activity_at ?vals) = Some s"
    and t: "t = thread_id s" and j: "j = hd (queue s)"
    by (auto simp: pickNextRunnable_def pick_first_find)
  from f have ne: "?ys \<noteq> []" by (auto simp: find_sort_key split: if_splits)
  with f have "find (\<lambda>y. runnable R y \<and> last_activity_at y = ?m) ?vals = Some s"
    by (simp add: find_sort_key)
  then obtain i where i: "i < length ?vals" "runnable R (?vals ! i)" "last_activity_at (?vals ! i) = ?m"
      "s = ?vals ! i" and first: "\<forall>k < i. \<not> (runnable R (?vals ! k) \<and> last_activity_at (?vals ! k) = ?m)"
    by (auto simp: find_Some_iff)
  have min: "?m \<le> last_activity_at (?vals ! k)" if "k < length ?vals" "runnable R (?vals ! k)" for k
  proof -
    from that(1) have "?vals ! k \<in> set ?vals" by (rule nth_mem)
    with that(2) have "?vals ! k \<in> set ?ys" by simp
    then show ?thesis by (intro Min_le) auto
  qed
  show ?thesis
  proof (intro exI[of _ i] conjI allI impI)
    show "i < length (sessions st)" using i(1) by simp
    show "runnable R (snd (sessions st ! i))" using i(1,2) by simp
    show "t = thread_id (snd (sessions st ! i))" using t i(1,4) by simp
    show "j = hd (queue (snd (sessions st ! i)))" using j i(1,4) by simp
  next
    fix k assume k: "k < length (sessions st)" "runnable R (snd (sessions st ! k))"
    with min[of k] i(1,3) show "last_activity_at (snd (sessions st ! i)) \<le> last_activity_at (snd (sessions st ! k))"
      by simp
  next
    fix k assume k: "k < length (sessions st)" "runnable R (snd (sessions st ! k))"
      "last_activity_at (snd (sessions st ! k)) = last_activity_at (snd (sessions st ! i))"
    show "i \<le> k"
    proof (rule ccontr)
      assume "\<not> i \<le> k"
      then have "k < i" by simp
      with first have "\<not> (runnable R (?vals ! k) \<and> last_activity_at (?vals ! k) = ?m)" by blast
      with k i(1,3) show False by simp
    qed
  qed
qed

lemma startNext_running_refused:
  "map_of (sched_sessions s) t = Some q \<Longrightarrow> qs_running q \<noteq> None \<Longrightarrow> startNext t s = Inr (None, s)"
  by (simp add: startNext_def mustGetSession_def)

lemma startNext_pops_head:
  assumes "distinct (map fst (sched_sessions s))" "startNext t s = Inr (Some j, s')"
  shows "\<exists>q. map_of (sched_sessions s) t = Some q \<and> qs_running q = None \<and> qs_queue q \<noteq> [] \<and>
             j = hd (qs_queue q) \<and>
             map_of (sched_sessions s') t = Some (q\<lparr>qs_queue := tl (qs_queue q), qs_running := Some j\<rparr>)"
  using assms
  by (auto simp: startNext_def mustGetSession_def update_conv' split: option.splits list.splits if_splits)

lemma pickNextRunnable_head:
  assumes "pickNextRunnable st R = Some (t, j)"
  shows "t \<notin> set R \<and>
         (\<exists>x \<in> set (sessions st). thread_id (snd x) = t \<and> running_job_id (snd x) = None \<and>
            queue (snd x) \<noteq> [] \<and> j = hd (queue (snd x)))"
proof -
  from pickNextRunnable_Some[OF assms] obtain i where
    i: "i < length (sessions st)" "runnable R (snd (sessions st ! i))"
       "t = thread_id (snd (sessions st ! i))" "j = hd (queue (snd (sessions st ! i)))"
    by blast
  from i(1) have "sessions st ! i \<in> set (sessions st)" by simp
  with i show ?thesis by (auto simp: runnable_def)
qed

lemma three_pick: "pickNextRunnable three_threads [] = Some (''thread-c'', ''job-c'')"
  by (simp add: pickNextRunnable_def three_threads_def state_of_def createSession_def)



lemma foldl_appendUnique_gen:
  "foldl appendUnique acc cs =
     (if acc = [] then remdups_adj (filter (\<lambda>c. c \<noteq> '''') cs)
      else butlast acc @ remdups_adj (last acc # filter (\<lambda>c. c \<noteq> '''') cs))"
proof (induction cs arbitrary: acc)
  case Nil
  then show ?case by simp
next
  case (Cons c cs)
  show ?case
  proof (cases "c = ''''")
    case True
    then show ?thesis using Cons[of acc] by (simp add: appendUnique_def)
  next
    case ne: False
    show ?thesis
    proof (cases "acc \<noteq> [] \<and> last acc = c")
      case True
      then show ?thesis using Cons[of acc] ne by (simp add: appendUnique_def)
    next
      case False
      then have au: "appendUnique acc c = acc @ [c]" using ne by (auto simp: appendUnique_def)
      show ?thesis
      proof (cases "acc = []")
        case True
        then show ?thesis using Cons[of "[c]"] ne au by simp
      next
        case nonempty: False
        with False have "last acc \<noteq> c" by simp
        then show ?thesis using Cons[of "acc @ [c]"] ne au nonempty
          by (simp add: butlast_append)
      qed
    qed
  qed
qed

lemma foldl_appendUnique:
  "foldl appendUnique [] cs = remdups_adj (filter (\<lambda>c. c \<noteq> '''') cs)"
  by (simp add: foldl_appendUnique_gen)

lemma codex_pass_parts:
  "codex_pass jp lines v = Inr v' \<or> codex_pass jp lines v = Inl (msg, v') \<Longrightarrow>
   assistantParts v' =
     foldl appendUnique (assistantParts v) (line_texts jp (\<lambda>p. [extractCodexAssistantText p]) lines)"
proof (induction lines arbitrary: v)
  case Nil
  then show ?case by simp
next
  case (Cons line rest)
  show ?case
  proof (cases "isLikelyJsonObjectLine line")
    case False
    with Cons.prems Cons.IH[of "v\<lparr>diagnostics := diagnostics v @ [line]\<rparr>"] show ?thesis by simp
  next
    case True
    show ?thesis
    proof (cases "parseOrEmpty jp line")
      case (Inl m)
      with True Cons.prems show ?thesis by auto
    next
      case (Inr parsed)
      with True Cons.prems Cons.IH[of "codex_line parsed v"] show ?thesis
        by (simp add: codex_line_def Let_def)
    qed
  qed
qed

lemma claude_pass_parts:
  "claude_pass jp lines v = Inr v' \<or> claude_pass jp lines v = Inl (msg, v') \<Longrightarrow>
   assistantParts v' =
     foldl appendUnique (assistantParts v) (line_texts jp (\<lambda>p. [extractClaudeAssistantText p]) lines)"
proof (induction lines arbitrary: v)
  case Nil
  then show ?case by simp
next
  case (Cons line rest)
  show ?case
  proof (cases "isLikelyJsonObjectLine line")
    case False
    with Cons.prems Cons.IH[of "v\<lparr>diagnostics := diagnostics v @ [line]\<rparr>"] show ?thesis by simp
  next
    case True
    show ?thesis
    proof (cases "parseOrEmpty jp line")
      case (Inl m)
      with True Cons.prems show ?thesis by auto
    next
      case (Inr parsed)
      with True Cons.prems Cons.IH[of "claude_line parsed v"] show ?thesis
        by (simp add: claude_line_def Let_def)
    qed
  qed
qed

lemma gemini_pass_parts:
  "gemini_pass jp lines v = Inr v' \<or> gemini_pass jp lines v = Inl (msg, v') \<Longrightarrow>
   g_assistantParts v' = g_assistantParts v @ line_texts jp gemini_chunk lines"
proof (induction lines arbitrary: v)
  case Nil
  then show ?case by simp
next
  case (Cons line rest)
  show ?case
  proof (cases "isLikelyJsonObjectLine line")
    case False
    with Cons.prems Cons.IH[of "v\<lparr>g_diagnostics := g_diagnostics v @ [line]\<rparr>"] show ?thesis by simp
  next
    case True
    show ?thesis
    proof (cases "parseOrEmpty jp line")
      case (Inl m)
      with True Cons.prems show ?thesis by auto
    next
      case (Inr parsed)
      with True Cons.prems Cons.IH[of "gemini_line parsed v"] show ?thesis
        by (simp add: gemini_line_def Let_def)
    qed
  qed
qed

declare gemini_attempts.simps [simp del]

lemma gemini_second_attempt:
  "snd (gemini_attempts jp cmd runner input (Suc 0) reqs) = reqs @ [gemini_request cmd input]"
  by (subst gemini_attempts.simps)
    (auto simp: Let_def split: RunnerReply.splits option.splits)

lemma gemini_requests:
  "snd (gemini_run jp cmd runner input) =
     (if gemini_retries jp (runner 0 (gemini_request cmd input))
      then [gemini_request cmd input, gemini_request cmd input]
      else [gemini_request cmd input])"
  unfolding gemini_run_def
  by (subst gemini_attempts.simps)
    (auto simp: Let_def gemini_retries_def gemini_second_attempt split: RunnerReply.splits option.splits)

lemma gemini_retry_result:
  "gemini_retries jp (runner 0 (gemini_request cmd input)) \<Longrightarrow>
   gemini_run jp cmd runner input =
     gemini_attempts jp cmd runner input (Suc 0) [gemini_request cmd input]"
  unfolding gemini_run_def
  by (subst gemini_attempts.simps)
    (auto simp: Let_def gemini_retries_def split: RunnerReply.splits option.splits)

lemmas eval_defs =
  hi_input_def gemini_run_def gemini_attempts.simps gemini_request_def gemini_buildArgs_def
  parseGemini_def gemini_init_def gemini_line_def gemini_chunk_def
  isLikelyJsonObjectLine_def trim_def is_ws_def startsWith_def endsWith_def suffix_to_prefix
  parseOrEmpty_def tryParseJsonObject_def example_parse_def example_lines_def jprop_def
  hasTransientErrorHint_def toLowerCase_def lower_char_def run_failure_def run_success_def
  key_state_def nl_def Let_def

lemmas pass_eval_defs =
  isLikelyJsonObjectLine_def trim_def is_ws_def startsWith_def endsWith_def suffix_to_prefix
  parseOrEmpty_def tryParseJsonObject_def example_parse_def example_lines_def jprop_def
  pass_init_def codex_line_def claude_line_def appendUnique_def extractCodexAssistantText_def
  parseCodexItem_def extractClaudeAssistantText_def nl_def Let_def
  gemini_init_def gemini_line_def gemini_chunk_def

lemma codex_dup_pass:
  "codex_pass example_parse codex_dup_lines pass_init =
     Inr \<lparr>diagnostics = [], assistantParts = [''hello''], sessionKey = Some ''codex-thread-1''\<rparr>"
  by (simp add: codex_dup_lines_def pass_eval_defs)

lemma claude_dup_pass:
  "claude_pass example_parse claude_dup_lines pass_init =
     Inr \<lparr>diagnostics = [], assistantParts = [''ok''], sessionKey = Some ''claude-session-1''\<rparr>"
  by (simp add: claude_dup_lines_def pass_eval_defs)

lemma gemini_dup_pass:
  "gemini_pass example_parse gemini_dup_lines gemini_init =
     Inr \<lparr>g_diagnostics = [], g_assistantParts = [''Hello'', ''Hello''], g_sessionId = Some ''gmn-1'',
          g_hasResult = True, g_resultStatus = Some ''success''\<rparr>"
  by (simp add: gemini_dup_lines_def pass_eval_defs)

subsection \<open>The service and the store\<close>

lemma createJobId_nonempty: "fst (createJobId nowIso svc) \<noteq> ''''"
  by (simp add: createJobId_def Let_def)

lemma enqueue_fresh_effect:
  assumes owner: "userId = ownerId svc"
    and sess: "map_of (sessions (rt_state (store svc))) threadId = Some session"
    and fresh: "\<not> truthy (dedupe (rt_state (store svc)) (threadId @ '':'' @ messageId))"
    and room: "length (queue session) < MAX_QUEUE_PER_SESSION"
  shows "fst (enqueueThreadMessage nowIso ts userId threadId messageId p svc) =
           Inr \<lparr>jobId = fst (createJobId nowIso svc), deduped = False\<rparr>"
    and "events (store (snd (enqueueThreadMessage nowIso ts userId threadId messageId p svc))) =
           events (store svc) @
             [\<lparr>ev_seq = seq (rt_state (store svc)) + 1, ev_ts = ts,
               payload = JobEnqueued threadId (fst (createJobId nowIso svc)) messageId p (tool session) 1\<rparr>]"
    and "map_of (sessions (rt_state (store (snd (enqueueThreadMessage nowIso ts userId threadId messageId p svc))))) =
           (map_of (sessions (rt_state (store svc))))
             (threadId \<mapsto> session\<lparr>queue := queue session @ [fst (createJobId nowIso svc)],
                                    last_activity_at := ts\<rparr>)"
    and "dedupe (rt_state (store (snd (enqueueThreadMessage nowIso ts userId threadId messageId p svc)))) =
           (dedupe (rt_state (store svc)))(threadId @ '':'' @ messageId \<mapsto> fst (createJobId nowIso svc))"
    and "ownerId (snd (enqueueThreadMessage nowIso ts userId threadId messageId p svc)) = ownerId svc"
  using assms
  by (simp_all add: enqueueThreadMessage_def Let_def createJobId_def appendEvent_def applyEvent_def
      map_of_map_entry split: prod.splits)

lemma enqueue_dup_effect:
  assumes "userId = ownerId svc"
    and "map_of (sessions (rt_state (store svc))) threadId = Some session"
    and "dedupe (rt_state (store svc)) (threadId @ '':'' @ messageId) = Some existing"
    and "existing \<noteq> ''''"
  shows "enqueueThreadMessage nowIso ts userId threadId messageId p svc =
           (Inr \<lparr>jobId = existing, deduped = True\<rparr>, svc)"
  using assms by (simp add: enqueueThreadMessage_def Let_def)

lemma enqueue_full_effect:
  assumes "userId = ownerId svc"
    and "map_of (sessions (rt_state (store svc))) threadId = Some session"
    and "\<not> truthy (dedupe (rt_state (store svc)) (threadId @ '':'' @ messageId))"
    and "MAX_QUEUE_PER_SESSION \<le> length (queue session)"
  shows "enqueueThreadMessage nowIso ts userId threadId messageId p svc =
           (Inl (E_QUEUE_FULL, ''session queue is full''), svc)"
  using assms by (simp add: enqueueThreadMessage_def Let_def)

lemma enqueue_never_full_when_dup:
  "truthy (dedupe (rt_state (store svc)) (threadId @ '':'' @ messageId)) \<Longrightarrow>
   fst (enqueueThreadMessage nowIso ts userId threadId messageId p svc) \<noteq> Inl (E_QUEUE_FULL, msg)"
  by (auto simp: enqueueThreadMessage_def Let_def split: option.splits)

lemma enqueue_error_unchanged:
  "fst (enqueueThreadMessage nowIso ts userId threadId messageId p svc) = Inl err \<Longrightarrow>
   snd (enqueueThreadMessage nowIso ts userId threadId messageId p svc) = svc"
  by (auto simp: enqueueThreadMessage_def Let_def split: option.splits if_splits prod.splits)

lemma svc_run_Cons: "svc_run (opn # ops) svc = svc_run ops (svc_step opn svc)"
  by (simp add: svc_run_def)

lemma svc_run_Nil: "svc_run [] svc = svc"
  by (simp add: svc_run_def)

lemma svc_run_append: "svc_run (ops @ ops') svc = svc_run ops' (svc_run ops svc)"
  by (simp add: svc_run_def)

lemma run_enqueues:
  assumes "ownerId svc = owner"
    and "map_of (sessions (rt_state (store svc))) t = Some s"
    and "length (queue s) + length ms \<le> MAX_QUEUE_PER_SESSION"
    and "distinct ms"
    and "\<forall>m \<in> set ms. dedupe (rt_state (store svc)) (t @ '':'' @ m) = None"
  shows "\<exists>s'. map_of (sessions (rt_state (store (svc_run (enq_ops nowIso ts owner t p ms) svc)))) t = Some s' \<and>
              length (queue s') = length (queue s) + length ms \<and>
              ownerId (svc_run (enq_ops nowIso ts owner t p ms) svc) = owner \<and>
              (\<forall>m. m \<notin> set ms \<longrightarrow>
                 dedupe (rt_state (store (svc_run (enq_ops nowIso ts owner t p ms) svc))) (t @ '':'' @ m) =
                 dedupe (rt_state (store svc)) (t @ '':'' @ m)) \<and>
              (\<forall>m \<in> set ms.
                 truthy (dedupe (rt_state (store (svc_run (enq_ops nowIso ts owner t p ms) svc))) (t @ '':'' @ m)))"
  using assms
proof (induction ms arbitrary: svc s)
  case Nil
  then show ?case by (simp add: enq_ops_def svc_run_Nil)
next
  case (Cons m ms)
  let ?r = "enqueueThreadMessage nowIso ts owner t m p svc"
  let ?svc1 = "snd ?r"
  let ?new = "fst (createJobId nowIso svc)"
  let ?s1 = "s\<lparr>queue := queue s @ [?new], last_activity_at := ts\<rparr>"
  have owner: "owner = ownerId svc" using Cons.prems(1) by simp
  have fresh: "\<not> truthy (dedupe (rt_state (store svc)) (t @ '':'' @ m))"
    using Cons.prems(5) by simp
  have room: "length (queue s) < MAX_QUEUE_PER_SESSION" using Cons.prems(3) by simp
  note eff = enqueue_fresh_effect[OF owner Cons.prems(2) fresh room, where nowIso=nowIso and ts=ts and p=p]
  have s1: "map_of (sessions (rt_state (store ?svc1))) t = Some ?s1" using eff(3) by simp
  have o1: "ownerId ?svc1 = owner" using eff(5) owner by simp
  have d1: "dedupe (rt_state (store ?svc1)) = (dedupe (rt_state (store svc)))(t @ '':'' @ m \<mapsto> ?new)"
    using eff(4) .
  have len: "length (queue ?s1) + length ms \<le> MAX_QUEUE_PER_SESSION" using Cons.prems(3) by simp
  have dist: "distinct ms" and mnot: "m \<notin> set ms" using Cons.prems(4) by simp_all
  have fr: "\<forall>m' \<in> set ms. dedupe (rt_state (store ?svc1)) (t @ '':'' @ m') = None"
    using Cons.prems(5) mnot by (auto simp: d1)
  from Cons.IH[OF o1 s1 len dist fr] obtain s' where
    a: "map_of (sessions (rt_state (store (svc_run (enq_ops nowIso ts owner t p ms) ?svc1)))) t = Some s'"
    and b: "length (queue s') = length (queue ?s1) + length ms"
    and c: "ownerId (svc_run (enq_ops nowIso ts owner t p ms) ?svc1) = owner"
    and d: "\<forall>m'. m' \<notin> set ms \<longrightarrow>
                 dedupe (rt_state (store (svc_run (enq_ops nowIso ts owner t p ms) ?svc1))) (t @ '':'' @ m') =
                 dedupe (rt_state (store ?svc1)) (t @ '':'' @ m')"
    and e: "\<forall>m' \<in> set ms.
                 truthy (dedupe (rt_state (store (svc_run (enq_ops nowIso ts owner t p ms) ?svc1))) (t @ '':'' @ m'))"
    by blast
  have run: "svc_run (enq_ops nowIso ts owner t p (m # ms)) svc = svc_run (enq_ops nowIso ts owner t p ms) ?svc1"
    by (simp add: enq_ops_def svc_run_Cons)
  have tm: "truthy (dedupe (rt_state (store (svc_run (enq_ops nowIso ts owner t p ms) ?svc1))) (t @ '':'' @ m))"
    using d mnot d1 createJobId_nonempty[of nowIso svc] by simp
  show ?case
    unfolding run
    using a b c d e tm d1 by (intro exI[of _ s']) auto
qed

lemma enqueued_keys_append: "enqueued_keys (es @ es') = enqueued_keys es @ enqueued_keys es'"
  by (induction es) (auto split: event_payload.splits)

lemma dedupe_other_event:
  "\<not> is_JobEnqueued p \<Longrightarrow>
   dedupe (applyEvent st \<lparr>ev_seq = n, ev_ts = ts, payload = p\<rparr>) = dedupe st"
  by (cases p) (simp_all add: applyEvent_def Let_def)

lemma enqueued_keys_snoc_other:
  "\<not> is_JobEnqueued p \<Longrightarrow>
   enqueued_keys (es @ [\<lparr>ev_seq = n, ev_ts = ts, payload = p\<rparr>]) = enqueued_keys es"
  by (cases p) (simp_all add: enqueued_keys_append)

lemma dedupe_inv_init: "dedupe_inv (new_service owner empty_store)"
  by (simp add: dedupe_inv_def new_service_def empty_store_def)

lemma dedupe_inv_enqueue:
  assumes "dedupe_inv svc"
  shows "dedupe_inv (snd (enqueueThreadMessage nowIso ts userId threadId messageId p svc))"
proof (cases "userId = ownerId svc")
  case False
  with assms show ?thesis by (simp add: enqueueThreadMessage_def)
next
  case owner: True
  show ?thesis
  proof (cases "map_of (sessions (rt_state (store svc))) threadId")
    case None
    with assms owner show ?thesis by (simp add: enqueueThreadMessage_def Let_def)
  next
    case (Some session)
    let ?key = "threadId @ '':'' @ messageId"
    show ?thesis
    proof (cases "truthy (dedupe (rt_state (store svc)) ?key)")
      case True
      with assms owner Some show ?thesis by (simp add: enqueueThreadMessage_def Let_def)
    next
      case fresh: False
      show ?thesis
      proof (cases "MAX_QUEUE_PER_SESSION \<le> length (queue session)")
        case True
        with assms enqueue_full_effect[OF owner Some fresh True] show ?thesis by simp
      next
        case False
        then have room: "length (queue session) < MAX_QUEUE_PER_SESSION" by simp
        note eff = enqueue_fresh_effect[OF owner Some fresh room, where nowIso=nowIso and ts=ts and p=p]
        from assms fresh have none: "dedupe (rt_state (store svc)) ?key = None"
          by (cases "dedupe (rt_state (store svc)) ?key") (auto simp: dedupe_inv_def)
        with assms have notin: "?key \<notin> set (enqueued_keys (events (store svc)))"
          by (auto simp: dedupe_inv_def)
        from assms notin show ?thesis
          unfolding dedupe_inv_def eff(2) eff(4)
          using createJobId_nonempty[of nowIso svc]
          by (auto simp: enqueued_keys_append)
      qed
    qed
  qed
qed

lemma dedupe_inv_step: "dedupe_inv svc \<Longrightarrow> dedupe_inv (svc_step opn svc)"
proof (cases opn)
  case (EnqueueCall nowIso ts userId threadId messageId p)
  assume "dedupe_inv svc"
  with EnqueueCall show ?thesis by (simp add: dedupe_inv_enqueue)
next
  case (OtherEvent ts p)
  assume "dedupe_inv svc"
  with OtherEvent show ?thesis
    by (auto simp: dedupe_inv_def appendEvent_def Let_def dedupe_other_event
        enqueued_keys_snoc_other)
qed

lemma dedupe_inv_run: "dedupe_inv svc \<Longrightarrow> dedupe_inv (svc_run ops svc)"
  by (induction ops arbitrary: svc) (simp_all add: svc_run_Nil svc_run_Cons dedupe_inv_step)

lemma svc_after_props:
  assumes "length ms \<le> 20" "distinct ms"
  shows "\<exists>s. map_of (sessions (rt_state (store (svc_after ms)))) ''thread-a'' = Some s \<and>
             length (queue s) = length ms \<and>
             ownerId (svc_after ms) = ''owner-1'' \<and>
             (\<forall>m. m \<notin> set ms \<longrightarrow> dedupe (rt_state (store (svc_after ms))) (''thread-a'' @ '':'' @ m) = None) \<and>
             (\<forall>m \<in> set ms. truthy (dedupe (rt_state (store (svc_after ms))) (''thread-a'' @ '':'' @ m)))"
proof -
  let ?svc1 = "svc_step (OtherEvent ''2026-02-26T14:00:00.000Z'' (SessionCreated ''thread-a'' ''my-app'' gemini []))
                 (new_service ''owner-1'' empty_store)"
  let ?s = "\<lparr>thread_id = ''thread-a'', project_name = ''my-app'', tool = gemini, adapter_state = [], queue = [],
             running_job_id = None, last_job_id = None, created_at = ''2026-02-26T14:00:00.000Z'',
             updated_at = ''2026-02-26T14:00:00.000Z'', last_activity_at = ''2026-02-26T14:00:00.000Z''\<rparr>"
  have o: "ownerId ?svc1 = ''owner-1''"
    by (simp add: new_service_def)
  have s: "map_of (sessions (rt_state (store ?svc1))) ''thread-a'' = Some ?s"
    by (simp add: new_service_def empty_store_def appendEvent_def applyEvent_def Let_def)
  have d: "dedupe (rt_state (store ?svc1)) = Map.empty"
    by (simp add: new_service_def empty_store_def appendEvent_def applyEvent_def Let_def)
  have len: "length (queue ?s) + length ms \<le> MAX_QUEUE_PER_SESSION"
    using assms(1) by (simp add: MAX_QUEUE_PER_SESSION_def)
  have fr: "\<forall>m \<in> set ms. dedupe (rt_state (store ?svc1)) (''thread-a'' @ '':'' @ m) = None"
    unfolding d by simp
  have run: "svc_after ms =
      svc_run (enq_ops ''2026-02-26T14:00:00.000Z'' ''2026-02-26T14:00:00.001Z'' ''owner-1'' ''thread-a'' ''p'' ms) ?svc1"
    by (simp add: svc_after_def thread_a_ops_def svc_run_Cons)
  from run_enqueues[OF o s len assms(2) fr, of "''2026-02-26T14:00:00.000Z''" "''2026-02-26T14:00:00.001Z''" "''p''"]
  have "\<exists>s'. map_of (sessions (rt_state (store (svc_after ms)))) ''thread-a'' = Some s' \<and>
              length (queue s') = length (queue ?s) + length ms \<and>
              ownerId (svc_after ms) = ''owner-1'' \<and>
              (\<forall>m. m \<notin> set ms \<longrightarrow>
                 dedupe (rt_state (store (svc_after ms))) (''thread-a'' @ '':'' @ m) =
                 dedupe (rt_state (store ?svc1)) (''thread-a'' @ '':'' @ m)) \<and>
              (\<forall>m \<in> set ms. truthy (dedupe (rt_state (store (svc_after ms))) (''thread-a'' @ '':'' @ m)))"
    unfolding run .
  then show ?thesis unfolding d by simp
qed

lemma twenty_props: "length twenty = 20" "distinct twenty" "''m21'' \<notin> set twenty" "''m1'' \<in> set twenty"
  by (simp_all add: twenty_def nineteen_def)

lemma nineteen_props: "length nineteen = 19" "distinct nineteen" "''m20'' \<notin> set nineteen"
  "''m21'' \<notin> set nineteen"
  by (simp_all add: nineteen_def)

lemma truthy_Some: "truthy x \<Longrightarrow> \<exists>v. x = Some v \<and> v \<noteq> ''''"
  by (cases x) auto

lemma applyEvent_marked:
  "applyEvent st \<lparr>ev_seq = n, ev_ts = ts, payload = JobMarkedUnknownAfterCrash t j\<rparr> =
     st\<lparr>seq := n,
        jobs := AList.map_entry j (\<lambda>b. b\<lparr>state := unknown_after_crash\<rparr>) (jobs st),
        sessions := AList.map_entry t (\<lambda>s. s\<lparr>running_job_id := None, last_job_id := Some j\<rparr>)
                      (sessions st)\<rparr>"
  by (simp add: applyEvent_def Let_def)

lemma mark_jobs_Nil: "mark_jobs ts [] rs = rs"
  by (simp add: mark_jobs_def)

lemma mark_jobs_snoc:
  "mark_jobs ts (bs @ [b]) rs =
     appendEvent ts (JobMarkedUnknownAfterCrash (job_thread_id b) (job_id b)) (mark_jobs ts bs rs)"
  by (simp add: mark_jobs_def)

lemma mark_jobs_seq: "seq (rt_state (mark_jobs ts bs rs)) = seq (rt_state rs) + length bs"
  by (induction bs rule: rev_induct)
     (simp_all add: mark_jobs_Nil mark_jobs_snoc appendEvent_def Let_def applyEvent_marked)

lemma mark_jobs_events:
  "events (mark_jobs ts bs rs) =
     events rs @ map (mark_event ts (seq (rt_state rs))) (enumerate 0 bs)"
proof (induction bs rule: rev_induct)
  case Nil
  show ?case by (simp add: mark_jobs_Nil)
next
  case (snoc b bs)
  show ?case
    by (simp add: mark_jobs_snoc appendEvent_def Let_def snoc mark_jobs_seq enumerate_append_eq
        mark_event_def)
qed

lemma mark_jobs_keys: "map fst (jobs (rt_state (mark_jobs ts bs rs))) = map fst (jobs (rt_state rs))"
proof (induction bs rule: rev_induct)
  case Nil
  show ?case by (simp add: mark_jobs_Nil)
next
  case (snoc b bs)
  have "map fst (AList.map_entry k f xs) = map fst xs" for k and f :: "JobEntity \<Rightarrow> JobEntity" and xs :: "(string \<times> JobEntity) list"
    by (induction xs) auto
  then show ?case
    by (simp add: mark_jobs_snoc appendEvent_def Let_def applyEvent_marked snoc)
qed

lemma mark_jobs_job:
  "map_of (jobs (rt_state (mark_jobs ts bs rs))) j =
     (if j \<in> job_id ` set bs
      then map_option (\<lambda>b. b\<lparr>state := unknown_after_crash\<rparr>) (map_of (jobs (rt_state rs)) j)
      else map_of (jobs (rt_state rs)) j)"
proof (induction bs rule: rev_induct)
  case Nil
  show ?case by (simp add: mark_jobs_Nil)
next
  case (snoc b bs)
  have step: "map_of (jobs (rt_state (mark_jobs ts (bs @ [b]) rs))) j =
      (if j = job_id b
       then map_option (\<lambda>b. b\<lparr>state := unknown_after_crash\<rparr>)
              (map_of (jobs (rt_state (mark_jobs ts bs rs))) j)
       else map_of (jobs (rt_state (mark_jobs ts bs rs))) j)"
    by (simp add: mark_jobs_snoc appendEvent_def Let_def applyEvent_marked map_of_map_entry
          split: option.splits)
  show ?case
    unfolding step snoc
    by (cases "map_of (jobs (rt_state rs)) j") auto
qed

lemma mark_jobs_session_other:
  "t \<notin> job_thread_id ` set bs \<Longrightarrow>
   map_of (sessions (rt_state (mark_jobs ts bs rs))) t = map_of (sessions (rt_state rs)) t"
proof (induction bs rule: rev_induct)
  case Nil
  show ?case by (simp add: mark_jobs_Nil)
next
  case (snoc b bs)
  then show ?case
    by (auto simp: mark_jobs_snoc appendEvent_def Let_def applyEvent_marked map_of_map_entry)
qed

lemma mark_jobs_session_marked:
  "t \<in> job_thread_id ` set bs \<Longrightarrow> map_of (sessions (rt_state rs)) t = Some s \<Longrightarrow>
   map_of (sessions (rt_state (mark_jobs ts bs rs))) t =
     Some (s\<lparr>running_job_id := None,
             last_job_id := Some (job_id (last (filter (\<lambda>b. job_thread_id b = t) bs)))\<rparr>)"
proof (induction bs rule: rev_induct)
  case Nil
  then show ?case by simp
next
  case (snoc b bs)
  show ?case
  proof (cases "job_thread_id b = t")
    case True
    show ?thesis
    proof (cases "t \<in> job_thread_id ` set bs")
      case True
      from snoc.IH[OF True snoc.prems(2)] \<open>job_thread_id b = t\<close> show ?thesis
        by (simp add: mark_jobs_snoc appendEvent_def Let_def applyEvent_marked map_of_map_entry)
    next
      case False
      from mark_jobs_session_other[OF False, of ts rs] snoc.prems(2) \<open>job_thread_id b = t\<close>
      show ?thesis
        by (simp add: mark_jobs_snoc appendEvent_def Let_def applyEvent_marked map_of_map_entry)
    qed
  next
    case False
    with snoc.prems(1) have "t \<in> job_thread_id ` set bs" by auto
    from snoc.IH[OF this snoc.prems(2)] False show ?thesis
      by (simp add: mark_jobs_snoc appendEvent_def Let_def applyEvent_marked map_of_map_entry)
  qed
qed

lemma wf_running_iff:
  assumes wf: "jobs_wf st" and j: "map_of (jobs st) j = Some b"
  shows "j \<in> job_id ` set (running_jobs st) \<longleftrightarrow> state b = running"
proof
  assume "j \<in> job_id ` set (running_jobs st)"
  then obtain b' where b': "b' \<in> set (running_jobs st)" and id: "job_id b' = j" by auto
  from b' have r: "state b' = running" and "b' \<in> snd ` set (jobs st)"
    by (auto simp: running_jobs_def)
  then obtain k where k: "(k, b') \<in> set (jobs st)" by force
  with wf have "job_id b' = k" by (auto simp: jobs_wf_def)
  with id k have "(j, b') \<in> set (jobs st)" by simp
  with wf have "map_of (jobs st) j = Some b'" by (simp add: jobs_wf_def)
  with j r show "state b = running" by simp
next
  assume r: "state b = running"
  from j have m: "(j, b) \<in> set (jobs st)" by (rule map_of_SomeD)
  with wf have id: "job_id b = j" by (auto simp: jobs_wf_def)
  from m r have "b \<in> set (running_jobs st)" by (force simp: running_jobs_def)
  with id show "j \<in> job_id ` set (running_jobs st)" by force
qed

lemma recover_fst: "fst (recoverRunningJobsAfterCrash ts rs) = mark_jobs ts (running_jobs (rt_state rs)) rs"
  by (simp add: recoverRunningJobsAfterCrash_def Let_def)

lemma recover_snd: "snd (recoverRunningJobsAfterCrash ts rs) = map job_id (running_jobs (rt_state rs))"
  by (simp add: recoverRunningJobsAfterCrash_def Let_def)

lemma recover_job:
  assumes wf: "jobs_wf (rt_state rs)" and j: "map_of (jobs (rt_state rs)) j = Some b"
  shows "map_of (jobs (rt_state (fst (recoverRunningJobsAfterCrash ts rs)))) j =
           Some (if state b = running then b\<lparr>state := unknown_after_crash\<rparr> else b)"
  using wf_running_iff[OF wf j] j by (simp add: recover_fst mark_jobs_job)

lemma recover_none_running:
  assumes wf: "jobs_wf (rt_state rs)"
    and j: "map_of (jobs (rt_state (fst (recoverRunningJobsAfterCrash ts rs)))) j = Some b'"
  shows "state b' \<noteq> running"
proof -
  have "j \<in> fst ` set (jobs (rt_state (fst (recoverRunningJobsAfterCrash ts rs))))"
    using map_of_SomeD[OF j] by force
  then have "j \<in> set (map fst (jobs (rt_state (mark_jobs ts (running_jobs (rt_state rs)) rs))))"
    by (simp add: recover_fst)
  then have "j \<in> set (map fst (jobs (rt_state rs)))"
    unfolding mark_jobs_keys .
  then obtain b where b: "map_of (jobs (rt_state rs)) j = Some b"
    by (metis map_of_eq_None_iff not_Some_eq set_map)
  from recover_job[OF wf b, of ts] j
  have "b' = (if state b = running then b\<lparr>state := unknown_after_crash\<rparr> else b)" by simp
  then show ?thesis by (simp split: if_splits)
qed

lemma map_fst_map_entry: "map fst (AList.map_entry k f xs) = map fst xs"
  by (induction xs) auto

lemma set_update_ids:
  "\<forall>(k, b) \<in> set xs. job_id b = k \<Longrightarrow> job_id v = j \<Longrightarrow>
   \<forall>(k, b) \<in> set (AList.update j v xs). job_id b = k"
  by (induction xs) auto

lemma set_map_entry_ids:
  "\<forall>(k, b) \<in> set xs. job_id b = k \<Longrightarrow> (\<And>b. job_id (f b) = job_id b) \<Longrightarrow>
   \<forall>(k, b) \<in> set (AList.map_entry j f xs). job_id b = k"
  by (induction xs) auto

lemma jobs_wf_applyEvent: "jobs_wf st \<Longrightarrow> jobs_wf (applyEvent st e)"
proof -
  assume wf: "jobs_wf st"
  then have d: "distinct (map fst (jobs st))" and i: "\<forall>(k, b) \<in> set (jobs st). job_id b = k"
    by (simp_all add: jobs_wf_def)
  have u: "distinct (map fst (AList.update j v (jobs st))) \<and>
           (\<forall>(k, b) \<in> set (AList.update j v (jobs st)). job_id b = k)" if "job_id v = j" for j v
    using set_update_ids[OF i that] d by (simp add: distinct_update)
  have m: "distinct (map fst (AList.map_entry j f (jobs st))) \<and>
           (\<forall>(k, b) \<in> set (AList.map_entry j f (jobs st)). job_id b = k)"
    if "\<And>b. job_id (f b) = job_id b" for j and f :: "JobEntity \<Rightarrow> JobEntity"
    using set_map_entry_ids[OF i that] d by (simp add: map_fst_map_entry)
  show ?thesis
  proof (cases "payload e")
    case (JobEnqueued t j mm p tn a)
    have "job_id \<lparr>job_id = j, job_thread_id = t, discord_message_id = mm, state = queued,
                   job_prompt = p, attempt = a, job_tool = tn, error_code = None,
                   error_message = None, started_at = None, finished_at = None,
                   result_excerpt = None\<rparr> = j" by simp
    from u[OF this] JobEnqueued show ?thesis
      by (simp add: applyEvent_def Let_def jobs_wf_def)
  next
    case (JobStarted t j)
    have "\<And>b. job_id (b\<lparr>state := running, started_at := Some (ev_ts e)\<rparr>) = job_id b" by simp
    from m[of "\<lambda>b. b\<lparr>state := running, started_at := Some (ev_ts e)\<rparr>" j, OF this] JobStarted
    show ?thesis
      by (simp add: applyEvent_def Let_def jobs_wf_def)
  next
    case (JobCompleted t j ex a)
    have "\<And>b. job_id (b\<lparr>state := success, finished_at := Some (ev_ts e), result_excerpt := Some ex\<rparr>) = job_id b"
      by simp
    from m[of "\<lambda>b. b\<lparr>state := success, finished_at := Some (ev_ts e), result_excerpt := Some ex\<rparr>" j, OF this]
      JobCompleted
    show ?thesis
      by (simp add: applyEvent_def Let_def jobs_wf_def)
  next
    case (JobFailed t j c msg a)
    have "\<And>b. job_id (b\<lparr>state := failed, finished_at := Some (ev_ts e), error_code := Some c,
                         error_message := Some msg\<rparr>) = job_id b" by simp
    from m[of "\<lambda>b. b\<lparr>state := failed, finished_at := Some (ev_ts e), error_code := Some c,
                         error_message := Some msg\<rparr>" j, OF this] JobFailed
    show ?thesis
      by (simp add: applyEvent_def Let_def jobs_wf_def)
  next
    case (JobMarkedUnknownAfterCrash t j)
    have "\<And>b. job_id (b\<lparr>state := unknown_after_crash\<rparr>) = job_id b" by simp
    from m[of "\<lambda>b. b\<lparr>state := unknown_after_crash\<rparr>" j, OF this] JobMarkedUnknownAfterCrash
    show ?thesis
      by (simp add: applyEvent_def Let_def jobs_wf_def)
  qed (insert wf, simp_all add: applyEvent_def Let_def jobs_wf_def)
qed

lemma jobs_wf_appendEvent: "jobs_wf (rt_state rs) \<Longrightarrow> jobs_wf (rt_state (appendEvent ts p rs))"
  by (simp add: appendEvent_def Let_def jobs_wf_applyEvent)

lemma jobs_wf_replay: "jobs_wf (rt_state (replay evs))"
proof (induction evs rule: rev_induct)
  case Nil
  show ?case by (simp add: replay_def empty_store_def jobs_wf_def)
next
  case (snoc e evs)
  obtain ts p where e: "e = (ts, p)" by (cases e)
  have "replay (evs @ [e]) = appendEvent ts p (replay evs)" by (simp add: replay_def e)
  with snoc show ?case by (simp add: jobs_wf_appendEvent)
qed

lemma running_jobs_distinct: "jobs_wf st \<Longrightarrow> distinct (map job_id (running_jobs st))"
proof -
  assume wf: "jobs_wf st"
  then have eq: "map job_id (map snd (jobs st)) = map fst (jobs st)" by (auto simp: jobs_wf_def)
  have "distinct (map job_id (map snd (jobs st)))" unfolding eq using wf by (simp add: jobs_wf_def)
  then show ?thesis unfolding running_jobs_def by (rule distinct_map_filter)
qed

lemma crash_state:
  "jobs (rt_state (replay crash_events)) = [(''job-1'', crash_job)]"
  "sessions (rt_state (replay crash_events)) = [(''thread-a'', crash_session)]"
  "seq (rt_state (replay crash_events)) = 3"
  "map payload (events (replay crash_events)) = map snd crash_events"
  by (simp_all add: replay_def crash_events_def appendEvent_def applyEvent_def Let_def
      empty_store_def crash_job_def crash_session_def)

section \<open>Theorems\<close>




text \<open>
  C3. Per-thread single-consumer FIFO. For every history of scheduler calls and every
  thread \<open>t\<close>:
  \<^item> at most one job of \<open>t\<close> is started and not yet finished;
  \<^item> the jobs of \<open>t\<close> finish in the order they were started, and they are started in the
    order they were enqueued (the started jobs are a prefix of the enqueued ones; an
    enqueued empty-string id is dropped by \<open>startNext\<close> and never started, and the service's
    job ids are never empty);
  \<^item> \<open>startNext\<close> returns \<^verbatim>\<open>null\<close> and changes nothing while the session has a running job;
  \<^item> a job that \<open>startNext\<close> returns is the head of the session's queue, which it pops;
  \<^item> the coordinator's \<open>pickNextRunnable\<close> never returns a thread that is being processed
    or has a running job, and the job it returns is the head of that thread's queue.
\<close>

theorem per_thread_fifo:
  assumes "new_scheduler gmax = Inr s0" and "sched_run calls s0 = (s, tr)"
  shows
    "length (in_flight t tr) \<le> 1 \<and>
     prefix (finished_of t tr) (started_of t tr) \<and>
     prefix (started_of t tr) (filter (\<lambda>j. j \<noteq> '''') (enqueued_of t tr)) \<and>
     ('''' \<notin> set (enqueued_of t tr) \<longrightarrow>
        prefix (started_of t tr) (enqueued_of t tr) \<and> prefix (finished_of t tr) (enqueued_of t tr)) \<and>
     (\<forall>q. map_of (sched_sessions s) t = Some q \<and> qs_running q \<noteq> None \<longrightarrow>
        startNext t s = Inr (None, s)) \<and>
     (\<forall>j s'. startNext t s = Inr (Some j, s') \<longrightarrow>
        (\<exists>q. map_of (sched_sessions s) t = Some q \<and> qs_running q = None \<and> qs_queue q \<noteq> [] \<and>
             j = hd (qs_queue q) \<and>
             map_of (sched_sessions s') t = Some (q\<lparr>qs_queue := tl (qs_queue q), qs_running := Some j\<rparr>))) \<and>
     (\<forall>st R t' j'. pickNextRunnable st R = Some (t', j') \<longrightarrow>
        t' \<notin> set R \<and>
        (\<exists>x \<in> set (sessions st). thread_id (snd x) = t' \<and> running_job_id (snd x) = None \<and>
           queue (snd x) \<noteq> [] \<and> j' = hd (queue (snd x))))"
proof -
  have inv: "sched_inv s tr"
    using sched_inv_run[OF sched_inv_new[OF assms(1)], of calls] assms(2) by simp
  then have ok: "thread_ok (map_of (sched_sessions s) t) t tr"
    and d: "distinct (map fst (sched_sessions s))" by (simp_all add: sched_inv_def)
  have sf: "\<exists>r. started_of t tr = finished_of t tr @ r \<and> length r \<le> 1"
    using ok by (auto simp: thread_ok_def split: option.splits)
  have es: "\<exists>r. filter (\<lambda>j. j \<noteq> '''') (enqueued_of t tr) = started_of t tr @ r"
    using ok by (auto simp: thread_ok_def nonempty_ids_def split: option.splits)
  from sf have a: "length (in_flight t tr) \<le> 1" by (auto simp: in_flight_def)
  from sf have b: "prefix (finished_of t tr) (started_of t tr)" by (auto simp: prefix_def)
  from es have c: "prefix (started_of t tr) (filter (\<lambda>j. j \<noteq> '''') (enqueued_of t tr))"
    by (auto simp: prefix_def)
  have e: "prefix (started_of t tr) (enqueued_of t tr) \<and> prefix (finished_of t tr) (enqueued_of t tr)"
    if "'''' \<notin> set (enqueued_of t tr)"
  proof -
    from that have "filter (\<lambda>j. j \<noteq> '''') (enqueued_of t tr) = enqueued_of t tr"
      by (auto simp: filter_id_conv)
    with c have "prefix (started_of t tr) (enqueued_of t tr)" by simp
    with b show ?thesis using prefix_order.trans by blast
  qed
  from a b c e show ?thesis
    using startNext_running_refused startNext_pops_head[OF d] pickNextRunnable_head by blast
qed

theorem per_thread_fifo_witness:
  "new_scheduler 2 =
     Inr \<lparr>globalMaxRunning = 2, sched_sessions = [], sched_dedupe = Map.empty, runningTotal = 0\<rparr> \<and>
   sched_run fifo_calls
     \<lparr>globalMaxRunning = 2, sched_sessions = [], sched_dedupe = Map.empty, runningTotal = 0\<rparr> =
     (\<lparr>globalMaxRunning = 2,
       sched_sessions = [(''thread-a'', \<lparr>qs_queue = [], qs_running = Some ''job-2''\<rparr>)],
       sched_dedupe = Map.empty, runningTotal = 1\<rparr>,
      [Enqueued ''thread-a'' ''job-1'', Enqueued ''thread-a'' ''job-2'', Started ''thread-a'' ''job-1'',
       Finished ''thread-a'' ''job-1'', Started ''thread-a'' ''job-2'']) \<and>
   '''' \<notin> set [''job-1'', ''job-2''] \<and>
   length (in_flight ''thread-a''
      [Enqueued ''thread-a'' ''job-1'', Enqueued ''thread-a'' ''job-2'', Started ''thread-a'' ''job-1'',
       Finished ''thread-a'' ''job-1'', Started ''thread-a'' ''job-2'']) \<le> 1 \<and>
   prefix [''job-1''] [''job-1'', ''job-2''] \<and>
   startNext ''thread-a''
     \<lparr>globalMaxRunning = 2,
       sched_sessions = [(''thread-a'', \<lparr>qs_queue = [], qs_running = Some ''job-2''\<rparr>)],
       sched_dedupe = Map.empty, runningTotal = 1\<rparr> =
     Inr (None, \<lparr>globalMaxRunning = 2,
       sched_sessions = [(''thread-a'', \<lparr>qs_queue = [], qs_running = Some ''job-2''\<rparr>)],
       sched_dedupe = Map.empty, runningTotal = 1\<rparr>)"
proof -
  let ?init = "\<lparr>globalMaxRunning = 2, sched_sessions = [], sched_dedupe = Map.empty, runningTotal = 0\<rparr>"
  let ?fin = "\<lparr>globalMaxRunning = 2,
       sched_sessions = [(''thread-a'', \<lparr>qs_queue = [], qs_running = Some ''job-2''\<rparr>)],
       sched_dedupe = Map.empty, runningTotal = 1\<rparr>"
  let ?tr = "[Enqueued ''thread-a'' ''job-1'', Enqueued ''thread-a'' ''job-2'', Started ''thread-a'' ''job-1'',
       Finished ''thread-a'' ''job-1'', Started ''thread-a'' ''job-2'']"
  have n: "new_scheduler 2 = Inr ?init" by (simp add: new_scheduler_def)
  have r: "sched_run fifo_calls ?init = (?fin, ?tr)"
    by (simp add: sched_run_def fifo_calls_def ensureSession_def enqueue_def startNext_def
        finishRunning_def mustGetSession_def)
  have q: "map_of (sched_sessions ?fin) ''thread-a'' = Some \<lparr>qs_queue = [], qs_running = Some ''job-2''\<rparr> \<and>
           qs_running \<lparr>qs_queue = [], qs_running = Some ''job-2''\<rparr> \<noteq> None" by simp
  note fifo = per_thread_fifo[OF n r, of "''thread-a''"]
  from fifo have a: "length (in_flight ''thread-a'' ?tr) \<le> 1" by blast
  from fifo have "prefix (finished_of ''thread-a'' ?tr) (enqueued_of ''thread-a'' ?tr)" by simp
  then have b: "prefix [''job-1''] [''job-1'', ''job-2'']" by simp
  from fifo q have c: "startNext ''thread-a'' ?fin = Inr (None, ?fin)" by blast
  from n r a b c show ?thesis by simp
qed

text \<open>
  C5, as the code has it. \<open>pickNextRunnable\<close> returns nothing exactly when no session is
  runnable (not being processed, no running job, a queue whose head is a job id).
  Otherwise it returns the head job of a runnable session whose \<open>last_activity_at\<close> is the
  smallest among the runnable sessions; among runnable sessions with that same
  \<open>last_activity_at\<close> it is the first in the enumeration order of \<^verbatim>\<open>state.sessions\<close> (the
  sort is stable and compares nothing but \<open>last_activity_at\<close>).
\<close>

theorem pick_next_policy:
  "(pickNextRunnable st R = None \<longleftrightarrow> (\<forall>x \<in> set (sessions st). \<not> runnable R (snd x))) \<and>
   (\<forall>t j. pickNextRunnable st R = Some (t, j) \<longrightarrow>
      (\<exists>i < length (sessions st).
           runnable R (snd (sessions st ! i)) \<and>
           t = thread_id (snd (sessions st ! i)) \<and>
           j = hd (queue (snd (sessions st ! i))) \<and>
           (\<forall>k < length (sessions st).
              runnable R (snd (sessions st ! k)) \<longrightarrow>
                last_activity_at (snd (sessions st ! i)) \<le> last_activity_at (snd (sessions st ! k)) \<and>
                (last_activity_at (snd (sessions st ! k)) = last_activity_at (snd (sessions st ! i))
                   \<longrightarrow> i \<le> k))))"
  using pickNextRunnable_None[of st R] pickNextRunnable_Some[of st R] by auto

theorem pick_next_policy_witness:
  "pickNextRunnable three_threads [] = Some (''thread-c'', ''job-c'') \<and>
   (\<exists>i < length (sessions three_threads).
       runnable [] (snd (sessions three_threads ! i)) \<and>
       ''thread-c'' = thread_id (snd (sessions three_threads ! i)) \<and>
       ''job-c'' = hd (queue (snd (sessions three_threads ! i))) \<and>
       (\<forall>k < length (sessions three_threads).
          runnable [] (snd (sessions three_threads ! k)) \<longrightarrow>
            last_activity_at (snd (sessions three_threads ! i))
              \<le> last_activity_at (snd (sessions three_threads ! k)) \<and>
            (last_activity_at (snd (sessions three_threads ! k)) =
               last_activity_at (snd (sessions three_threads ! i)) \<longrightarrow> i \<le> k)))"
  using pick_next_policy[of three_threads "[]"] three_pick by blast

text \<open>
  C5 as stated fails on a tie: two runnable sessions with equal \<open>last_activity_at\<close>, of
  which \<open>thread-a\<close> has the smaller id and \<open>thread-b\<close> was created first; \<open>thread-b\<close> is
  picked.
\<close>

theorem pick_tie_counterexample:
  "runnable [] (createSession ''thread-b'' ''2026-02-26T14:00:00.000Z'' [''job-b'']) \<and>
   runnable [] (createSession ''thread-a'' ''2026-02-26T14:00:00.000Z'' [''job-a'']) \<and>
   last_activity_at (createSession ''thread-a'' ''2026-02-26T14:00:00.000Z'' [''job-a'']) =
     last_activity_at (createSession ''thread-b'' ''2026-02-26T14:00:00.000Z'' [''job-b'']) \<and>
   ''thread-a'' < ''thread-b'' \<and>
   pickNextRunnable tie_state [] = Some (''thread-b'', ''job-b'')"
  by (simp add: pickNextRunnable_def tie_state_def state_of_def createSession_def runnable_def)

text \<open>
  C7, as the code has it. Adapters A (claude) and B (codex) accumulate assistant text
  through \<open>appendUnique\<close>: a text equal to the last appended part is dropped, and after a
  pass without parse error the parts are the non-empty texts of the JSON lines, in document
  order, with every run of equal consecutive texts reduced to one. Adapter C (gemini) has no
  such step: \<open>parseGemini\<close> appends every chunk, so its parts are all the chunks of the JSON
  lines in document order, consecutive duplicates included.
\<close>

theorem consecutive_duplicates:
  "(parts \<noteq> [] \<and> last parts = text \<longrightarrow> appendUnique parts text = parts) \<and>
   (\<forall>v. codex_pass jp lines pass_init = Inr v \<longrightarrow>
      assistantParts v =
        remdups_adj (filter (\<lambda>c. c \<noteq> '''')
          (line_texts jp (\<lambda>p. [extractCodexAssistantText p]) lines))) \<and>
   (\<forall>v. claude_pass jp lines pass_init = Inr v \<longrightarrow>
      assistantParts v =
        remdups_adj (filter (\<lambda>c. c \<noteq> '''')
          (line_texts jp (\<lambda>p. [extractClaudeAssistantText p]) lines))) \<and>
   (\<forall>v. gemini_pass jp lines gemini_init = Inr v \<longrightarrow>
      g_assistantParts v = line_texts jp gemini_chunk lines)"
proof -
  have a: "parts \<noteq> [] \<and> last parts = text \<longrightarrow> appendUnique parts text = parts"
    by (simp add: appendUnique_def)
  have b: "assistantParts v =
        remdups_adj (filter (\<lambda>c. c \<noteq> '''')
          (line_texts jp (\<lambda>p. [extractCodexAssistantText p]) lines))"
    if "codex_pass jp lines pass_init = Inr v" for v
    using codex_pass_parts[of jp lines pass_init v] that
    by (simp add: foldl_appendUnique pass_init_def)
  have c: "assistantParts v =
        remdups_adj (filter (\<lambda>c. c \<noteq> '''')
          (line_texts jp (\<lambda>p. [extractClaudeAssistantText p]) lines))"
    if "claude_pass jp lines pass_init = Inr v" for v
    using claude_pass_parts[of jp lines pass_init v] that
    by (simp add: foldl_appendUnique pass_init_def)
  have d: "g_assistantParts v = line_texts jp gemini_chunk lines"
    if "gemini_pass jp lines gemini_init = Inr v" for v
    using gemini_pass_parts[of jp lines gemini_init v] that
    by (simp add: gemini_init_def)
  from a b c d show ?thesis by blast
qed

theorem consecutive_duplicates_witness:
  "[''hello''] \<noteq> [] \<and> last [''hello''] = ''hello'' \<and> appendUnique [''hello''] ''hello'' = [''hello''] \<and>
   codex_pass example_parse codex_dup_lines pass_init =
     Inr \<lparr>diagnostics = [], assistantParts = [''hello''], sessionKey = Some ''codex-thread-1''\<rparr> \<and>
   remdups_adj (filter (\<lambda>c. c \<noteq> '''')
     (line_texts example_parse (\<lambda>p. [extractCodexAssistantText p]) codex_dup_lines)) = [''hello''] \<and>
   claude_pass example_parse claude_dup_lines pass_init =
     Inr \<lparr>diagnostics = [], assistantParts = [''ok''], sessionKey = Some ''claude-session-1''\<rparr> \<and>
   remdups_adj (filter (\<lambda>c. c \<noteq> '''')
     (line_texts example_parse (\<lambda>p. [extractClaudeAssistantText p]) claude_dup_lines)) = [''ok''] \<and>
   gemini_pass example_parse gemini_dup_lines gemini_init =
     Inr \<lparr>g_diagnostics = [], g_assistantParts = [''Hello'', ''Hello''], g_sessionId = Some ''gmn-1'',
          g_hasResult = True, g_resultStatus = Some ''success''\<rparr> \<and>
   line_texts example_parse gemini_chunk gemini_dup_lines = [''Hello'', ''Hello'']"
proof -
  note th = consecutive_duplicates[of "[''hello'']" "''hello''"]
  have h: "[''hello''] \<noteq> [] \<and> last [''hello''] = ''hello''" by simp
  from th[of example_parse codex_dup_lines] h
  have a: "appendUnique [''hello''] ''hello'' = [''hello'']" by blast
  from th[of example_parse codex_dup_lines] codex_dup_pass
  have b: "remdups_adj (filter (\<lambda>c. c \<noteq> '''')
     (line_texts example_parse (\<lambda>p. [extractCodexAssistantText p]) codex_dup_lines)) = [''hello'']"
    by fastforce
  from th[of example_parse claude_dup_lines] claude_dup_pass
  have c: "remdups_adj (filter (\<lambda>c. c \<noteq> '''')
     (line_texts example_parse (\<lambda>p. [extractClaudeAssistantText p]) claude_dup_lines)) = [''ok'']"
    by fastforce
  from th[of example_parse gemini_dup_lines] gemini_dup_pass
  have d: "line_texts example_parse gemini_chunk gemini_dup_lines = [''Hello'', ''Hello'']"
    by fastforce
  from h a b c d codex_dup_pass claude_dup_pass gemini_dup_pass show ?thesis by blast
qed

text \<open>
  C7 as stated fails for adapter C: a stream with the same \<open>delta\<close> twice in a row yields a
  successful run whose assistant text holds the chunk twice.
\<close>

theorem gemini_duplicate_counterexample:
  "ok (fst (gemini_run example_parse ''gemini'' hello_twice hi_input)) \<and>
   assistantText (fst (gemini_run example_parse ''gemini'' hello_twice hi_input)) =
     ''Hello'' @ nl @ ''Hello''"
  by (simp add: hello_twice_def eval_defs)

text \<open>
  C8, as the code has it. Adapter C invokes the runner once, or twice with the same
  request (same command and argv). It invokes it a second time exactly when the first
  invocation resolved, did not time out, had no line that looks like a JSON object and fails
  to parse, exited with a nonzero code, and stdout, stderr and the diagnostic lines, joined
  and lowercased, contain one of the five hints. There is never a third invocation, and none
  on a zero exit or without a hint. Adapters A and B invoke the runner exactly once.
\<close>

theorem gemini_transient_retry:
  "snd (gemini_run jp cmd runner input) =
     (if gemini_retries jp (runner 0 (gemini_request cmd input))
      then [gemini_request cmd input, gemini_request cmd input]
      else [gemini_request cmd input]) \<and>
   args (gemini_request cmd input) = gemini_buildArgs input \<and>
   length (snd (gemini_run jp cmd runner input)) \<le> 2 \<and>
   (\<forall>r. runner 0 (gemini_request cmd input) = Resolved r \<and>
        (exitCode r = 0 \<or>
         \<not> hasTransientErrorHint
             (run_stdoutLines r @ run_stderrLines r @
              parsed_diagnosticLogs (parseGemini jp (run_stdoutLines r)))) \<longrightarrow>
        snd (gemini_run jp cmd runner input) = [gemini_request cmd input]) \<and>
   length (snd (codex_run jp cmdB runnerB inputB)) = 1 \<and>
   length (snd (claude_run jp cmdA runnerA inputA)) = 1"
proof -
  have a: "snd (gemini_run jp cmd runner input) =
     (if gemini_retries jp (runner 0 (gemini_request cmd input))
      then [gemini_request cmd input, gemini_request cmd input]
      else [gemini_request cmd input])"
    by (rule gemini_requests)
  have b: "args (gemini_request cmd input) = gemini_buildArgs input"
    by (simp add: gemini_request_def)
  from a have c: "length (snd (gemini_run jp cmd runner input)) \<le> 2" by simp
  have d: "snd (gemini_run jp cmd runner input) = [gemini_request cmd input]"
    if "runner 0 (gemini_request cmd input) = Resolved r \<and>
        (exitCode r = 0 \<or>
         \<not> hasTransientErrorHint
             (run_stdoutLines r @ run_stderrLines r @
              parsed_diagnosticLogs (parseGemini jp (run_stdoutLines r))))" for r
    using that a by (auto simp: gemini_retries_def)
  have e: "length (snd (codex_run jp cmdB runnerB inputB)) = 1"
    by (simp add: codex_run_def Let_def)
  have f: "length (snd (claude_run jp cmdA runnerA inputA)) = 1"
    by (simp add: claude_run_def Let_def)
  from a b c d e f show ?thesis by blast
qed

theorem gemini_transient_retry_witness:
  "gemini_retries example_parse (quota_then_ok 0 (gemini_request ''gemini'' hi_input)) \<and>
   snd (gemini_run example_parse ''gemini'' quota_then_ok hi_input) =
     [gemini_request ''gemini'' hi_input, gemini_request ''gemini'' hi_input] \<and>
   args (gemini_request ''gemini'' hi_input) = [''-p'', ''hi'', ''--output-format'', ''stream-json''] \<and>
   ok (fst (gemini_run example_parse ''gemini'' quota_then_ok hi_input)) \<and>
   hello_twice 0 (gemini_request ''gemini'' hi_input) =
     Resolved \<lparr>exitCode = 0, timedOut = False, run_stdoutLines = gemini_dup_lines,
               run_stderrLines = []\<rparr> \<and>
   snd (gemini_run example_parse ''gemini'' hello_twice hi_input) = [gemini_request ''gemini'' hi_input]"
proof -
  note th = gemini_transient_retry[of example_parse "''gemini''" _ hi_input]
  have r: "gemini_retries example_parse (quota_then_ok 0 (gemini_request ''gemini'' hi_input))"
    by (simp add: gemini_retries_def quota_then_ok_def eval_defs)
  from th[of quota_then_ok] r
  have a: "snd (gemini_run example_parse ''gemini'' quota_then_ok hi_input) =
     [gemini_request ''gemini'' hi_input, gemini_request ''gemini'' hi_input]"
    by simp
  have b: "args (gemini_request ''gemini'' hi_input) = [''-p'', ''hi'', ''--output-format'', ''stream-json'']"
    by (simp add: gemini_request_def gemini_buildArgs_def hi_input_def)
  have c: "ok (fst (gemini_run example_parse ''gemini'' quota_then_ok hi_input))"
    by (simp add: quota_then_ok_def eval_defs)
  have h: "hello_twice 0 (gemini_request ''gemini'' hi_input) =
     Resolved \<lparr>exitCode = 0, timedOut = False, run_stdoutLines = gemini_dup_lines,
               run_stderrLines = []\<rparr>"
    by (simp add: hello_twice_def gemini_dup_lines_def)
  have z: "exitCode \<lparr>exitCode = 0, timedOut = False, run_stdoutLines = gemini_dup_lines,
               run_stderrLines = []\<rparr> = 0" by simp
  from th[of hello_twice] h z
  have d: "snd (gemini_run example_parse ''gemini'' hello_twice hi_input) = [gemini_request ''gemini'' hi_input]"
    by blast
  from r a b c h d show ?thesis by blast
qed

text \<open>
  C8 as stated fails when the first run is classified before its exit code is looked at: a
  run that exits with code 1 and reports a quota error, but prints a line in braces that is
  not JSON (returned as \<open>E_ADAPTER_PARSE\<close>), and a run that timed out (returned as
  \<open>E_CLI_TIMEOUT\<close>). Neither is retried.
\<close>

theorem gemini_retry_counterexample:
  "quota_unparsable 0 (gemini_request ''gemini'' hi_input) =
     Resolved \<lparr>exitCode = 1, timedOut = False,
               run_stdoutLines = [''{ code: 429, status: RESOURCE_EXHAUSTED }''],
               run_stderrLines = [''quota exceeded, retry later'']\<rparr> \<and>
   hasTransientErrorHint
     ([''{ code: 429, status: RESOURCE_EXHAUSTED }''] @ [''quota exceeded, retry later''] @
      parsed_diagnosticLogs (parseGemini example_parse [''{ code: 429, status: RESOURCE_EXHAUSTED }''])) \<and>
   snd (gemini_run example_parse ''gemini'' quota_unparsable hi_input) =
     [gemini_request ''gemini'' hi_input] \<and>
   errorCode (fst (gemini_run example_parse ''gemini'' quota_unparsable hi_input)) = Some E_ADAPTER_PARSE \<and>
   quota_timed_out 0 (gemini_request ''gemini'' hi_input) =
     Resolved \<lparr>exitCode = 1, timedOut = True, run_stdoutLines = [],
               run_stderrLines = [''quota exceeded, retry later'']\<rparr> \<and>
   hasTransientErrorHint ([] @ [''quota exceeded, retry later''] @ []) \<and>
   snd (gemini_run example_parse ''gemini'' quota_timed_out hi_input) =
     [gemini_request ''gemini'' hi_input] \<and>
   errorCode (fst (gemini_run example_parse ''gemini'' quota_timed_out hi_input)) = Some E_CLI_TIMEOUT"
  by (simp add: quota_unparsable_def quota_timed_out_def eval_defs)




text \<open>
  C4. Queue backpressure boundary. \<open>MAX_QUEUE_PER_SESSION = 20\<close>. For a call of
  \<open>enqueueThreadMessage\<close> by the owner in a managed thread with a message that is not a
  duplicate: the call throws \<open>E_QUEUE_FULL\<close> exactly when the session's queue holds twenty
  entries or more, and then the service (state, log, id counter) is unchanged; with fewer
  than twenty entries it succeeds, writes the \<open>JobEnqueued\<close> event and the queue grows by
  the new job id.
\<close>

theorem queue_backpressure:
  assumes "userId = ownerId svc"
    and "map_of (sessions (rt_state (store svc))) threadId = Some session"
    and "\<not> truthy (dedupe (rt_state (store svc)) (threadId @ '':'' @ messageId))"
  shows
    "MAX_QUEUE_PER_SESSION = 20 \<and>
     (fst (enqueueThreadMessage nowIso ts userId threadId messageId p svc) =
        Inl (E_QUEUE_FULL, ''session queue is full'') \<longleftrightarrow> 20 \<le> length (queue session)) \<and>
     (20 \<le> length (queue session) \<longrightarrow>
        snd (enqueueThreadMessage nowIso ts userId threadId messageId p svc) = svc) \<and>
     (length (queue session) < 20 \<longrightarrow>
        (\<exists>newId.
           fst (enqueueThreadMessage nowIso ts userId threadId messageId p svc) =
             Inr \<lparr>jobId = newId, deduped = False\<rparr> \<and>
           events (store (snd (enqueueThreadMessage nowIso ts userId threadId messageId p svc))) =
             events (store svc) @
               [\<lparr>ev_seq = seq (rt_state (store svc)) + 1, ev_ts = ts,
                 payload = JobEnqueued threadId newId messageId p (tool session) 1\<rparr>] \<and>
           (\<exists>session'.
              map_of (sessions (rt_state (store
                (snd (enqueueThreadMessage nowIso ts userId threadId messageId p svc))))) threadId =
                Some session' \<and>
              queue session' = queue session @ [newId])))"
proof -
  have c: "MAX_QUEUE_PER_SESSION = 20" by (simp add: MAX_QUEUE_PER_SESSION_def)
  let ?r = "enqueueThreadMessage nowIso ts userId threadId messageId p svc"
  show ?thesis
  proof (cases "20 \<le> length (queue session)")
    case True
    then have "MAX_QUEUE_PER_SESSION \<le> length (queue session)" by (simp add: c)
    from enqueue_full_effect[OF assms this, where nowIso=nowIso and ts=ts and p=p]
    have r: "?r = (Inl (E_QUEUE_FULL, ''session queue is full''), svc)" .
    have f: "fst ?r = Inl (E_QUEUE_FULL, ''session queue is full'')" unfolding r by simp
    have g: "snd ?r = svc" unfolding r by simp
    from True have n: "\<not> length (queue session) < 20" by simp
    from c f g True n show ?thesis by blast
  next
    case False
    then have room: "length (queue session) < MAX_QUEUE_PER_SESSION" by (simp add: c)
    note eff = enqueue_fresh_effect[OF assms room, where nowIso=nowIso and ts=ts and p=p]
    have f: "fst ?r \<noteq> Inl (E_QUEUE_FULL, ''session queue is full'')" unfolding eff(1) by simp
    have s: "\<exists>session'. map_of (sessions (rt_state (store (snd ?r)))) threadId = Some session' \<and>
               queue session' = queue session @ [fst (createJobId nowIso svc)]"
      unfolding eff(3) by simp
    from eff(1) eff(2) s have e: "\<exists>newId.
           fst ?r = Inr \<lparr>jobId = newId, deduped = False\<rparr> \<and>
           events (store (snd ?r)) =
             events (store svc) @
               [\<lparr>ev_seq = seq (rt_state (store svc)) + 1, ev_ts = ts,
                 payload = JobEnqueued threadId newId messageId p (tool session) 1\<rparr>] \<and>
           (\<exists>session'.
              map_of (sessions (rt_state (store (snd ?r)))) threadId = Some session' \<and>
              queue session' = queue session @ [newId])"
      by blast
    from c f e False show ?thesis by blast
  qed
qed

text \<open>
  With nineteen entries queued the twentieth message is admitted and the queue then holds
  twenty; with twenty queued the twenty-first message is rejected.
\<close>

theorem queue_backpressure_witness:
  "(\<exists>newId session'.
      fst (enqueueThreadMessage ''2026-02-26T14:00:01.000Z'' ''2026-02-26T14:00:01.001Z''
             ''owner-1'' ''thread-a'' ''m20'' ''p'' (svc_after nineteen)) =
        Inr \<lparr>jobId = newId, deduped = False\<rparr> \<and>
      map_of (sessions (rt_state (store
        (snd (enqueueThreadMessage ''2026-02-26T14:00:01.000Z'' ''2026-02-26T14:00:01.001Z''
               ''owner-1'' ''thread-a'' ''m20'' ''p'' (svc_after nineteen)))))) ''thread-a'' =
        Some session' \<and>
      length (queue session') = 20) \<and>
   (\<exists>session. map_of (sessions (rt_state (store (svc_after twenty)))) ''thread-a'' = Some session \<and>
      length (queue session) = 20) \<and>
   \<not> truthy (dedupe (rt_state (store (svc_after twenty))) (''thread-a'' @ '':'' @ ''m21'')) \<and>
   enqueueThreadMessage ''2026-02-26T14:00:01.000Z'' ''2026-02-26T14:00:01.001Z''
     ''owner-1'' ''thread-a'' ''m21'' ''p'' (svc_after twenty) =
     (Inl (E_QUEUE_FULL, ''session queue is full''), svc_after twenty)"
proof -
  from svc_after_props[of nineteen] nineteen_props obtain s19 where
    s19: "map_of (sessions (rt_state (store (svc_after nineteen)))) ''thread-a'' = Some s19"
    and len19: "length (queue s19) = 19"
    and o19: "''owner-1'' = ownerId (svc_after nineteen)"
    and f19: "\<not> truthy (dedupe (rt_state (store (svc_after nineteen))) (''thread-a'' @ '':'' @ ''m20''))"
    by auto
  from queue_backpressure[OF o19 s19 f19, of "''2026-02-26T14:00:01.000Z''" "''2026-02-26T14:00:01.001Z''" "''p''"]
    len19
  have a: "\<exists>newId session'.
      fst (enqueueThreadMessage ''2026-02-26T14:00:01.000Z'' ''2026-02-26T14:00:01.001Z''
             ''owner-1'' ''thread-a'' ''m20'' ''p'' (svc_after nineteen)) =
        Inr \<lparr>jobId = newId, deduped = False\<rparr> \<and>
      map_of (sessions (rt_state (store
        (snd (enqueueThreadMessage ''2026-02-26T14:00:01.000Z'' ''2026-02-26T14:00:01.001Z''
               ''owner-1'' ''thread-a'' ''m20'' ''p'' (svc_after nineteen)))))) ''thread-a'' =
        Some session' \<and>
      length (queue session') = 20"
    by auto
  from svc_after_props[of twenty] twenty_props obtain s20 where
    s20: "map_of (sessions (rt_state (store (svc_after twenty)))) ''thread-a'' = Some s20"
    and len20: "length (queue s20) = 20"
    and o20: "''owner-1'' = ownerId (svc_after twenty)"
    and f20: "\<not> truthy (dedupe (rt_state (store (svc_after twenty))) (''thread-a'' @ '':'' @ ''m21''))"
    by auto
  from queue_backpressure[OF o20 s20 f20, of "''2026-02-26T14:00:01.000Z''" "''2026-02-26T14:00:01.001Z''" "''p''"]
    len20
  have f: "fst (enqueueThreadMessage ''2026-02-26T14:00:01.000Z'' ''2026-02-26T14:00:01.001Z''
     ''owner-1'' ''thread-a'' ''m21'' ''p'' (svc_after twenty)) = Inl (E_QUEUE_FULL, ''session queue is full'')"
    and g: "snd (enqueueThreadMessage ''2026-02-26T14:00:01.000Z'' ''2026-02-26T14:00:01.001Z''
     ''owner-1'' ''thread-a'' ''m21'' ''p'' (svc_after twenty)) = svc_after twenty"
    by simp_all
  from f g have b: "enqueueThreadMessage ''2026-02-26T14:00:01.000Z'' ''2026-02-26T14:00:01.001Z''
     ''owner-1'' ''thread-a'' ''m21'' ''p'' (svc_after twenty) =
     (Inl (E_QUEUE_FULL, ''session queue is full''), svc_after twenty)"
    by (simp add: prod_eq_iff)
  from a s20 len20 f20 b show ?thesis by blast
qed

text \<open>
  C6. Crash recovery. The job table after startup replay is a dictionary keyed by job id.
  On every store with such a job table, \<open>recoverRunningJobsAfterCrash\<close>
  \<^item> returns the ids of the jobs whose state is \<open>running\<close>, each once;
  \<^item> appends one \<open>JobMarkedUnknownAfterCrash\<close> event per such job, with consecutive
    \<open>seq\<close>, and no other event;
  \<^item> creates and removes no job, sets the state of each formerly running job to
    \<open>unknown_after_crash\<close> and leaves every other job as it was, so that no job is
    \<open>running\<close> afterwards;
  \<^item> clears \<open>running_job_id\<close> of the session that owns a formerly running job (changing
    nothing else there but \<open>last_job_id\<close>) and leaves every other session as it was.
\<close>

theorem crash_recovery:
  "jobs_wf (rt_state (replay evs)) \<and>
   (jobs_wf (rt_state rs) \<longrightarrow>
      snd (recoverRunningJobsAfterCrash ts rs) = map job_id (running_jobs (rt_state rs)) \<and>
      distinct (map job_id (running_jobs (rt_state rs))) \<and>
      events (fst (recoverRunningJobsAfterCrash ts rs)) =
        events rs @ map (mark_event ts (seq (rt_state rs))) (enumerate 0 (running_jobs (rt_state rs))) \<and>
      map fst (jobs (rt_state (fst (recoverRunningJobsAfterCrash ts rs)))) = map fst (jobs (rt_state rs)) \<and>
      (\<forall>j b. map_of (jobs (rt_state rs)) j = Some b \<longrightarrow>
         map_of (jobs (rt_state (fst (recoverRunningJobsAfterCrash ts rs)))) j =
           Some (if state b = running then b\<lparr>state := unknown_after_crash\<rparr> else b)) \<and>
      (\<forall>j b'. map_of (jobs (rt_state (fst (recoverRunningJobsAfterCrash ts rs)))) j = Some b' \<longrightarrow>
         state b' \<noteq> running) \<and>
      (\<forall>b s. b \<in> set (running_jobs (rt_state rs)) \<and>
         map_of (sessions (rt_state rs)) (job_thread_id b) = Some s \<longrightarrow>
         (\<exists>l. map_of (sessions (rt_state (fst (recoverRunningJobsAfterCrash ts rs)))) (job_thread_id b) =
            Some (s\<lparr>running_job_id := None, last_job_id := l\<rparr>))) \<and>
      (\<forall>t. t \<notin> job_thread_id ` set (running_jobs (rt_state rs)) \<longrightarrow>
         map_of (sessions (rt_state (fst (recoverRunningJobsAfterCrash ts rs)))) t =
           map_of (sessions (rt_state rs)) t))"
proof (intro conjI impI)
  show "jobs_wf (rt_state (replay evs))" by (rule jobs_wf_replay)
next
  show "snd (recoverRunningJobsAfterCrash ts rs) = map job_id (running_jobs (rt_state rs))"
    by (rule recover_snd)
next
  assume "jobs_wf (rt_state rs)"
  then show "distinct (map job_id (running_jobs (rt_state rs)))" by (rule running_jobs_distinct)
next
  show "events (fst (recoverRunningJobsAfterCrash ts rs)) =
        events rs @ map (mark_event ts (seq (rt_state rs))) (enumerate 0 (running_jobs (rt_state rs)))"
    by (simp add: recover_fst mark_jobs_events)
next
  show "map fst (jobs (rt_state (fst (recoverRunningJobsAfterCrash ts rs)))) = map fst (jobs (rt_state rs))"
    by (simp add: recover_fst mark_jobs_keys)
next
  assume "jobs_wf (rt_state rs)"
  then show "\<forall>j b. map_of (jobs (rt_state rs)) j = Some b \<longrightarrow>
         map_of (jobs (rt_state (fst (recoverRunningJobsAfterCrash ts rs)))) j =
           Some (if state b = running then b\<lparr>state := unknown_after_crash\<rparr> else b)"
    using recover_job by blast
next
  assume "jobs_wf (rt_state rs)"
  then show "\<forall>j b'. map_of (jobs (rt_state (fst (recoverRunningJobsAfterCrash ts rs)))) j = Some b' \<longrightarrow>
         state b' \<noteq> running"
    using recover_none_running by blast
next
  show "\<forall>b s. b \<in> set (running_jobs (rt_state rs)) \<and>
         map_of (sessions (rt_state rs)) (job_thread_id b) = Some s \<longrightarrow>
         (\<exists>l. map_of (sessions (rt_state (fst (recoverRunningJobsAfterCrash ts rs)))) (job_thread_id b) =
            Some (s\<lparr>running_job_id := None, last_job_id := l\<rparr>))"
  proof (intro allI impI)
    fix b s
    assume h: "b \<in> set (running_jobs (rt_state rs)) \<and>
         map_of (sessions (rt_state rs)) (job_thread_id b) = Some s"
    then have "job_thread_id b \<in> job_thread_id ` set (running_jobs (rt_state rs))" by blast
    from mark_jobs_session_marked[OF this, of rs s ts] h
    show "\<exists>l. map_of (sessions (rt_state (fst (recoverRunningJobsAfterCrash ts rs)))) (job_thread_id b) =
            Some (s\<lparr>running_job_id := None, last_job_id := l\<rparr>)"
      unfolding recover_fst by blast
  qed
next
  show "\<forall>t. t \<notin> job_thread_id ` set (running_jobs (rt_state rs)) \<longrightarrow>
         map_of (sessions (rt_state (fst (recoverRunningJobsAfterCrash ts rs)))) t =
           map_of (sessions (rt_state rs)) t"
    unfolding recover_fst using mark_jobs_session_other by blast
qed

text \<open>
  The recovery test: a session with one job enqueued and started; recovery returns
  \<open>job-1\<close>, marks it, clears the session's running job and writes the fourth event.
\<close>

theorem crash_recovery_witness:
  "jobs_wf (rt_state (replay crash_events)) \<and>
   state crash_job = running \<and>
   map_of (jobs (rt_state (replay crash_events))) ''job-1'' = Some crash_job \<and>
   map_of (sessions (rt_state (replay crash_events))) ''thread-a'' = Some crash_session \<and>
   snd (recoverRunningJobsAfterCrash ''2026-02-26T14:05:00.000Z'' (replay crash_events)) = [''job-1''] \<and>
   map_of (jobs (rt_state (fst (recoverRunningJobsAfterCrash ''2026-02-26T14:05:00.000Z''
       (replay crash_events))))) ''job-1'' = Some (crash_job\<lparr>state := unknown_after_crash\<rparr>) \<and>
   (\<exists>l. map_of (sessions (rt_state (fst (recoverRunningJobsAfterCrash ''2026-02-26T14:05:00.000Z''
       (replay crash_events))))) ''thread-a'' =
      Some (crash_session\<lparr>running_job_id := None, last_job_id := l\<rparr>)) \<and>
   events (fst (recoverRunningJobsAfterCrash ''2026-02-26T14:05:00.000Z'' (replay crash_events))) =
     events (replay crash_events) @
       [\<lparr>ev_seq = 4, ev_ts = ''2026-02-26T14:05:00.000Z'',
         payload = JobMarkedUnknownAfterCrash ''thread-a'' ''job-1''\<rparr>]"
proof -
  note r = crash_recovery[of crash_events "replay crash_events" "''2026-02-26T14:05:00.000Z''"]
  from r have wf: "jobs_wf (rt_state (replay crash_events))" by blast
  have run: "running_jobs (rt_state (replay crash_events)) = [crash_job]"
    by (simp add: running_jobs_def crash_state crash_job_def)
  have st: "state crash_job = running" by (simp add: crash_job_def)
  have j: "map_of (jobs (rt_state (replay crash_events))) ''job-1'' = Some crash_job"
    by (simp add: crash_state)
  have s: "map_of (sessions (rt_state (replay crash_events))) ''thread-a'' = Some crash_session"
    by (simp add: crash_state)
  have t: "job_thread_id crash_job = ''thread-a''" by (simp add: crash_job_def)
  have i: "job_id crash_job = ''job-1''" by (simp add: crash_job_def)
  from r wf have a: "snd (recoverRunningJobsAfterCrash ''2026-02-26T14:05:00.000Z'' (replay crash_events)) = [''job-1'']"
    by (simp add: run i)
  from r wf j st have b: "map_of (jobs (rt_state (fst (recoverRunningJobsAfterCrash ''2026-02-26T14:05:00.000Z''
       (replay crash_events))))) ''job-1'' = Some (crash_job\<lparr>state := unknown_after_crash\<rparr>)"
    by simp
  from r wf have "\<forall>b s. b \<in> set (running_jobs (rt_state (replay crash_events))) \<and>
         map_of (sessions (rt_state (replay crash_events))) (job_thread_id b) = Some s \<longrightarrow>
         (\<exists>l. map_of (sessions (rt_state (fst (recoverRunningJobsAfterCrash ''2026-02-26T14:05:00.000Z''
            (replay crash_events))))) (job_thread_id b) =
            Some (s\<lparr>running_job_id := None, last_job_id := l\<rparr>))"
    by blast
  then have "crash_job \<in> set (running_jobs (rt_state (replay crash_events))) \<and>
         map_of (sessions (rt_state (replay crash_events))) (job_thread_id crash_job) = Some crash_session \<longrightarrow>
         (\<exists>l. map_of (sessions (rt_state (fst (recoverRunningJobsAfterCrash ''2026-02-26T14:05:00.000Z''
            (replay crash_events))))) (job_thread_id crash_job) =
            Some (crash_session\<lparr>running_job_id := None, last_job_id := l\<rparr>))"
    by blast
  with run s t have c: "\<exists>l. map_of (sessions (rt_state (fst (recoverRunningJobsAfterCrash ''2026-02-26T14:05:00.000Z''
       (replay crash_events))))) ''thread-a'' =
      Some (crash_session\<lparr>running_job_id := None, last_job_id := l\<rparr>)"
    by simp
  from r wf have d: "events (fst (recoverRunningJobsAfterCrash ''2026-02-26T14:05:00.000Z'' (replay crash_events))) =
     events (replay crash_events) @
       [\<lparr>ev_seq = 4, ev_ts = ''2026-02-26T14:05:00.000Z'',
         payload = JobMarkedUnknownAfterCrash ''thread-a'' ''job-1''\<rparr>]"
    by (simp add: run mark_event_def crash_state t i)
  from wf st j s a b c d show ?thesis by blast
qed

text \<open>
  C10. The dedup lookup precedes the queue-full check: a call of \<open>enqueueThreadMessage\<close>
  whose key has a (non-empty) job id in the dedup index never throws \<open>E_QUEUE_FULL\<close>,
  whatever the length of the queue; made by the owner in a managed thread it returns the
  indexed job id with \<open>deduped = true\<close> and changes nothing. In every history from the
  empty store in which the \<open>JobEnqueued\<close> events are written by \<open>enqueueThreadMessage\<close>,
  the lookup finds exactly the keys of the index (no indexed job id is empty).
\<close>

theorem duplicate_before_queue_full:
  "(truthy (dedupe (rt_state (store svc)) (threadId @ '':'' @ messageId)) \<longrightarrow>
      (\<forall>msg. fst (enqueueThreadMessage nowIso ts userId threadId messageId p svc)
               \<noteq> Inl (E_QUEUE_FULL, msg))) \<and>
   (userId = ownerId svc \<and>
    map_of (sessions (rt_state (store svc))) threadId = Some session \<and>
    dedupe (rt_state (store svc)) (threadId @ '':'' @ messageId) = Some existing \<and>
    existing \<noteq> '''' \<longrightarrow>
      enqueueThreadMessage nowIso ts userId threadId messageId p svc =
        (Inr \<lparr>jobId = existing, deduped = True\<rparr>, svc)) \<and>
   (\<forall>k. truthy (dedupe (rt_state (store (svc_run ops (new_service owner empty_store)))) k) \<longleftrightarrow>
        k \<in> dom (dedupe (rt_state (store (svc_run ops (new_service owner empty_store))))))"
proof -
  have "dedupe_inv (svc_run ops (new_service owner empty_store))"
    using dedupe_inv_run[OF dedupe_inv_init] .
  then have "\<forall>k v. dedupe (rt_state (store (svc_run ops (new_service owner empty_store)))) k = Some v
      \<longrightarrow> v \<noteq> ''''"
    by (simp add: dedupe_inv_def)
  then have "\<forall>k. truthy (dedupe (rt_state (store (svc_run ops (new_service owner empty_store)))) k) \<longleftrightarrow>
        k \<in> dom (dedupe (rt_state (store (svc_run ops (new_service owner empty_store)))))"
    by (metis domI domIff option.exhaust truthy.simps)
  then show ?thesis
    using enqueue_never_full_when_dup enqueue_dup_effect by blast
qed

text \<open>
  With twenty entries queued in \<open>thread-a\<close>, the message \<open>m1\<close> sent again is answered
  with its job id.
\<close>

theorem duplicate_before_queue_full_witness:
  "\<exists>session existing.
     ''owner-1'' = ownerId (svc_after twenty) \<and>
     map_of (sessions (rt_state (store (svc_after twenty)))) ''thread-a'' = Some session \<and>
     length (queue session) = 20 \<and>
     dedupe (rt_state (store (svc_after twenty))) (''thread-a'' @ '':'' @ ''m1'') = Some existing \<and>
     existing \<noteq> '''' \<and>
     enqueueThreadMessage ''2026-02-26T14:00:01.000Z'' ''2026-02-26T14:00:01.001Z''
       ''owner-1'' ''thread-a'' ''m1'' ''p'' (svc_after twenty) =
       (Inr \<lparr>jobId = existing, deduped = True\<rparr>, svc_after twenty)"
proof -
  from svc_after_props[of twenty] twenty_props obtain s where
    s: "map_of (sessions (rt_state (store (svc_after twenty)))) ''thread-a'' = Some s"
    and len: "length (queue s) = 20"
    and o: "ownerId (svc_after twenty) = ''owner-1''"
    and t: "truthy (dedupe (rt_state (store (svc_after twenty))) (''thread-a'' @ '':'' @ ''m1''))"
    by auto
  from truthy_Some[OF t] obtain existing where
    e: "dedupe (rt_state (store (svc_after twenty))) (''thread-a'' @ '':'' @ ''m1'') = Some existing"
    and ne: "existing \<noteq> ''''" by blast
  from duplicate_before_queue_full[of "svc_after twenty" "''thread-a''" "''m1''"
      "''2026-02-26T14:00:01.000Z''" "''2026-02-26T14:00:01.001Z''" "''owner-1''" "''p''" s existing]
    o[symmetric] s e ne
  have "enqueueThreadMessage ''2026-02-26T14:00:01.000Z'' ''2026-02-26T14:00:01.001Z''
       ''owner-1'' ''thread-a'' ''m1'' ''p'' (svc_after twenty) =
       (Inr \<lparr>jobId = existing, deduped = True\<rparr>, svc_after twenty)"
    by blast
  with o[symmetric] s len e ne show ?thesis by blast
qed

end
